theory Spec2Isabelle
  imports Main "HOL-Library.Sublist"
begin

section \<open>Strings\<close>

text \<open>
  A JavaScript string is a sequence of UTF-16 code units and \<^verbatim>\<open>.length\<close> counts them.
  Here a string is a \<^typ>\<open>string\<close>, one \<^typ>\<open>char\<close> standing for one code unit, and
  \<^verbatim>\<open>.length\<close> is \<^const>\<open>length\<close>. The empty string is the only falsy string, so a test
  \<^verbatim>\<open>if (s)\<close> is \<open>s \<noteq> []\<close>.
\<close>

definition newline :: char where
  "newline = CHR 0x0A"

text \<open>\<^verbatim>\<open>content.split('\n')\<close>: the empty string gives one empty line.\<close>

fun split_nl :: "string \<Rightarrow> string list" where
  "split_nl [] = [[]]"
| "split_nl (c # cs) =
     (if c = newline then [] # split_nl cs
      else (case split_nl cs of
              [] \<Rightarrow> [[c]]
            | l # ls \<Rightarrow> (c # l) # ls))"

text \<open>\<^verbatim>\<open>chunks.join('\n')\<close>, the inverse the specification measures the split against.\<close>

fun join_nl :: "string list \<Rightarrow> string" where
  "join_nl [] = []"
| "join_nl [x] = x"
| "join_nl (x # y # ys) = x @ [newline] @ join_nl (y # ys)"

text \<open>Decimal rendering of a number inside a template literal.\<close>

definition digit :: "nat \<Rightarrow> char" where
  "digit d = ''0123456789'' ! d"

fun show_nat :: "nat \<Rightarrow> string" where
  "show_nat n = (if n < 10 then [digit n] else show_nat (n div 10) @ [digit (n mod 10)])"

declare show_nat.simps [simp del]

definition show_int :: "int \<Rightarrow> string" where
  "show_int i = (if i < 0 then ''-'' @ show_nat (nat (- i)) else show_nat (nat i))"

section \<open>The delivery service (wecomService.ts)\<close>

subsection \<open>Splitting the content into chunks\<close>

definition CHUNK_SIZE :: nat where
  "CHUNK_SIZE = 1024"

text \<open>
  The \<^verbatim>\<open>for (const line of lines)\<close> loop, on the pair of \<^verbatim>\<open>chunks\<close> and
  \<^verbatim>\<open>currentChunk\<close>. The limit is an argument, so that the properties are stated for
  every limit; the service runs it at \<^const>\<open>CHUNK_SIZE\<close>.
\<close>

fun splitLoop :: "nat \<Rightarrow> string list \<Rightarrow> string list \<times> string \<Rightarrow> string list \<times> string" where
  "splitLoop M [] st = st"
| "splitLoop M (line # lines) (chunks, currentChunk) =
     (if length currentChunk + length line + 1 > M
      then splitLoop M lines
             (if currentChunk \<noteq> [] then chunks @ [currentChunk] else chunks, line)
      else splitLoop M lines
             (chunks, if currentChunk \<noteq> [] then currentChunk @ [newline] @ line else line))"

definition makeChunks :: "nat \<Rightarrow> string \<Rightarrow> string list" where
  "makeChunks M content =
     (case splitLoop M (split_nl content) ([], []) of
        (chunks, currentChunk) \<Rightarrow>
          if currentChunk \<noteq> [] then chunks @ [currentChunk] else chunks)"

text \<open>
  The chunks a loop state stands for, were the loop to end there, and the lines of a list
  of chunks.
\<close>

definition pending :: "string list \<times> string \<Rightarrow> string list" where
  "pending st = (case st of (chunks, currentChunk) \<Rightarrow>
      if currentChunk \<noteq> [] then chunks @ [currentChunk] else chunks)"

definition chunk_lines :: "string list \<Rightarrow> string list" where
  "chunk_lines cs = concat (map split_nl cs)"


subsection \<open>The browser: requests, responses, effects\<close>

datatype json = JString string | JObject "(string \<times> json) list"

record request =
  url :: string
  http_method :: string
  headers :: "(string \<times> string) list"
  body :: json

text \<open>
  What \<^verbatim>\<open>response.json()\<close> gives: the sink's \<^verbatim>\<open>{errcode, errmsg}\<close>, or a rejection
  with a message when the body is not of that form.
\<close>

datatype json_body = JsonData int string | JsonRejected string

text \<open>
  What \<^verbatim>\<open>await fetch(...)\<close> gives: a rejection with a message, or a response with
  \<^verbatim>\<open>ok\<close>, \<^verbatim>\<open>status\<close>, the body as \<^verbatim>\<open>text()\<close> and the body as \<^verbatim>\<open>json()\<close>.
\<close>

datatype fetch_result = Rejected string | Response bool nat string json_body

datatype js_error = Error (message: string)

datatype io_event =
    Fetch request
  | Sleep nat
  | ConsoleError string js_error
  | Alert string
  | Generate string

fun requests :: "io_event list \<Rightarrow> request list" where
  "requests [] = []"
| "requests (Fetch r # es) = r # requests es"
| "requests (e # es) = requests es"

text \<open>
  The browser functions the service calls. The sink answers a request knowing the
  requests sent before it, so that any sequence of answers is some sink.
  \<^verbatim>\<open>encodeURIComponent\<close> is the platform's and is taken to return (it throws on
  a lone surrogate only); \<^verbatim>\<open>JSON.stringify\<close> is not modelled, a request holds the
  object it serialises.
\<close>

record browser =
  fetch :: "request list \<Rightarrow> request \<Rightarrow> fetch_result"
  encodeURIComponent :: "string \<Rightarrow> string"

subsection \<open>Sending the chunks\<close>

definition proxyUrl :: string where
  "proxyUrl = ''https://corsproxy.io/?''"

definition payload :: "string \<Rightarrow> json" where
  "payload chunk =
     JObject [(''msgtype'', JString ''markdown''),
              (''markdown'', JObject [(''content'', JString chunk)])]"

definition mkRequest :: "string \<Rightarrow> string \<Rightarrow> request" where
  "mkRequest targetUrl chunk =
     \<lparr>url = targetUrl, http_method = ''POST'',
      headers = [(''Content-Type'', ''application/json'')],
      body = payload chunk\<rparr>"

text \<open>The body of the \<^verbatim>\<open>try\<close> after the fetch: the error thrown, if one is.\<close>

fun outcome :: "fetch_result \<Rightarrow> js_error option" where
  "outcome (Rejected m) = Some (Error m)"
| "outcome (Response ok status text data) =
     (if \<not> ok then Some (Error (''HTTP '' @ show_nat status @ '': '' @ text))
      else (case data of
              JsonRejected m \<Rightarrow> Some (Error m)
            | JsonData errcode errmsg \<Rightarrow>
                if errcode \<noteq> 0
                then Some (Error (''WeCom API Error ('' @ show_int errcode @ ''): '' @ errmsg))
                else None))"

text \<open>
  The \<^verbatim>\<open>for (let i = 0; i < chunks.length; i++)\<close> loop, on the chunks from index
  \<open>i\<close> on; \<open>n\<close> is \<^verbatim>\<open>chunks.length\<close>. The promise rejects with \<open>Inl\<close> the error.
\<close>

fun sendLoop ::
  "browser \<Rightarrow> string \<Rightarrow> nat \<Rightarrow> nat \<Rightarrow> string list \<Rightarrow> io_event list \<Rightarrow> (js_error + unit) \<times> io_event list"
where
  "sendLoop b targetUrl n i [] tr = (Inr (), tr)"
| "sendLoop b targetUrl n i (chunk # rest) tr =
     (let req = mkRequest targetUrl chunk;
          tr1 = tr @ [Fetch req]
      in case outcome (fetch b (requests tr) req) of
           Some e \<Rightarrow>
             (Inl e,
              tr1 @ [ConsoleError (''Failed to send chunk '' @ show_nat (i + 1) @ ''/'' @ show_nat n) e])
         | None \<Rightarrow>
             sendLoop b targetUrl n (i + 1) rest (if i < n - 1 then tr1 @ [Sleep 300] else tr1))"

definition sendToWeCom ::
  "browser \<Rightarrow> string \<Rightarrow> string \<Rightarrow> io_event list \<Rightarrow> (js_error + unit) \<times> io_event list"
where
  "sendToWeCom b webhookUrl content tr =
     (let chunks = makeChunks CHUNK_SIZE content;
          targetUrl = proxyUrl @ encodeURIComponent b webhookUrl
      in sendLoop b targetUrl (length chunks) 0 chunks tr)"

section \<open>The workflow (App.tsx)\<close>

datatype BotStatus = WAITING | SEARCHING | GENERATING | REVIEWING | SENDING | COMPLETED | ERROR

datatype log_type = info | success | warning | error

text \<open>
  A log entry; its \<^verbatim>\<open>id\<close> (random) and \<^verbatim>\<open>timestamp\<close> (wall clock) are left out.
\<close>

record LogEntry =
  log_message :: string
  log_type :: log_type

text \<open>
  The values a callback closes over: they are arguments of the functions below. The
  status a callback reads is the status of the last render; the component renders
  between two events, so it is the \<open>status\<close> field of the state the event starts in.
\<close>

record config =
  apiKey :: string
  webhookUrl :: string
  autoMode :: bool
  requireConfirmation :: bool

text \<open>
  The component's runtime state. \<open>lastRunDate\<close> is \<^verbatim>\<open>lastRunDateRef.current\<close>;
  \<open>timers\<close> holds the delay of each pending \<^verbatim>\<open>setTimeout\<close>, whose callback is
  \<^verbatim>\<open>() => setStatus(BotStatus.WAITING)\<close> at all three places; \<open>io\<close> is the trace of
  effects outside the component.
\<close>

record app =
  status :: BotStatus
  logs :: "LogEntry list"
  lastReport :: string
  countDown :: string
  lastRunDate :: string
  timers :: "nat list"
  io :: "io_event list"

definition addLog :: "string \<Rightarrow> log_type \<Rightarrow> app \<Rightarrow> app" where
  "addLog m t st = st\<lparr>logs := logs st @ [\<lparr>log_message = m, log_type = t\<rparr>]\<rparr>"

definition setStatus :: "BotStatus \<Rightarrow> app \<Rightarrow> app" where
  "setStatus s st = st\<lparr>status := s\<rparr>"

definition setTimeout :: "nat \<Rightarrow> app \<Rightarrow> app" where
  "setTimeout delay st = st\<lparr>timers := timers st @ [delay]\<rparr>"

text \<open>A pending timer fires: its callback runs, whatever the status is by then.\<close>

definition fireTimer :: "nat \<Rightarrow> app \<Rightarrow> app" where
  "fireTimer k st =
     (if k < length (timers st)
      then setStatus WAITING (st\<lparr>timers := take k (timers st) @ drop (Suc k) (timers st)\<rparr>)
      else st)"

subsection \<open>Step 2: the send phase\<close>

text \<open>\<^verbatim>\<open>executeSend\<close> up to the \<^verbatim>\<open>await\<close>, and from the \<^verbatim>\<open>await\<close> on.\<close>

definition executeSend_begin :: "app \<Rightarrow> app" where
  "executeSend_begin st = addLog ''Sending report to WeCom...'' info (setStatus SENDING st)"

fun executeSend_finish :: "js_error + unit \<Rightarrow> app \<Rightarrow> app" where
  "executeSend_finish (Inr u) st =
     setTimeout 60000
       (addLog ''Workflow complete. Resetting for next cycle.'' success
         (setStatus COMPLETED
           (addLog ''Successfully pushed to Enterprise WeChat.'' success st)))"
| "executeSend_finish (Inl e) st =
     (let st1 = setStatus REVIEWING st;
          st2 = addLog (''Send Failed: '' @ message e @ ''. Please click 'Approve & Send' to retry.'') error st1
      in st2\<lparr>io := io st2 @
           [Alert (''Failed to send report: '' @ message e @ [newline, newline] @
                   ''Please check your network or webhook URL and try again.'')]\<rparr>)"

definition executeSend :: "browser \<Rightarrow> config \<Rightarrow> string \<Rightarrow> app \<Rightarrow> app" where
  "executeSend b cfg content st =
     (let st1 = executeSend_begin st
      in case sendToWeCom b (webhookUrl cfg) content (io st1) of
           (r, io') \<Rightarrow> executeSend_finish r (st1\<lparr>io := io'\<rparr>))"

text \<open>The handler of the "Approve & Send" button: \<^verbatim>\<open>() => executeSend(lastReport)\<close>.\<close>

definition approve :: "browser \<Rightarrow> config \<Rightarrow> app \<Rightarrow> app" where
  "approve b cfg st = executeSend b cfg (lastReport st) st"

subsection \<open>Step 1: the generation phase\<close>

text \<open>
  \<^verbatim>\<open>startGeneration\<close> up to \<^verbatim>\<open>await generateWeeklyReport(apiKey)\<close>; the call is the
  effect \<open>Generate\<close>.
\<close>

definition startGeneration_begin :: "config \<Rightarrow> app \<Rightarrow> app" where
  "startGeneration_begin cfg st =
     (if status st = SEARCHING \<or> status st = GENERATING then st
      else if apiKey cfg = [] then
        setTimeout 5000
          (setStatus ERROR (addLog ''API Key missing. Cannot execute workflow.'' error st))
      else
        (let st1 = addLog ''Starting workflow: Scanning data sources...'' info (setStatus SEARCHING st);
             st2 = addLog ''Analysing clinical trials with Gemini 2.5...'' info (setStatus GENERATING st1)
         in st2\<lparr>io := io st2 @ [Generate (apiKey cfg)]\<rparr>))"

text \<open>
  The rest of \<^verbatim>\<open>startGeneration\<close>, once the generation service has answered:
  \<open>Inr\<close> the report, \<open>Inl\<close> the error it rejected with.
\<close>

fun startGeneration_resume :: "browser \<Rightarrow> config \<Rightarrow> js_error + string \<Rightarrow> app \<Rightarrow> app" where
  "startGeneration_resume b cfg (Inr reportContent) st =
     (let st1 = addLog ''Report generated. Preparing for review.'' success
                  (st\<lparr>lastReport := reportContent\<rparr>)
      in if requireConfirmation cfg
         then addLog ''Paused for manual review. Please approve to send.'' warning
                (setStatus REVIEWING st1)
         else executeSend b cfg reportContent st1)"
| "startGeneration_resume b cfg (Inl e) st =
     setTimeout 60000
       (addLog (''Generation Error: '' @ message e) error (setStatus ERROR st))"

subsection \<open>The action buttons\<close>

text \<open>
  The buttons of the status card. In the status \<open>REVIEWING\<close> the card renders
  "Approve & Send" and "Regenerate"; in every other status it renders "Run Now", disabled
  unless the status is \<open>WAITING\<close>, \<open>COMPLETED\<close> or \<open>ERROR\<close>, and the timer switch. A click
  on a button runs its handler; a button that is not rendered, or is disabled, gets no
  click: the result is \<open>None\<close>. The timer switch changes the configuration.
\<close>

datatype button = ApproveSend | Regenerate | RunNow | ToggleTimer

fun click :: "browser \<Rightarrow> config \<Rightarrow> button \<Rightarrow> app \<Rightarrow> (config \<times> app) option" where
  "click b cfg ApproveSend st =
     (if status st = REVIEWING then Some (cfg, approve b cfg st) else None)"
| "click b cfg Regenerate st =
     (if status st = REVIEWING then Some (cfg, startGeneration_begin cfg st) else None)"
| "click b cfg RunNow st =
     (if status st = REVIEWING then None
      else if status st \<noteq> WAITING \<and> status st \<noteq> COMPLETED \<and> status st \<noteq> ERROR then None
      else Some (cfg, startGeneration_begin cfg st))"
| "click b cfg ToggleTimer st =
     (if status st = REVIEWING then None
      else Some (cfg\<lparr>autoMode := \<not> autoMode cfg\<rparr>, st))"

subsection \<open>The scheduler\<close>

text \<open>What one tick reads from \<^verbatim>\<open>new Date()\<close>.\<close>

record clock =
  day :: nat
  hour :: nat
  minute :: nat
  dateKey :: string

definition nextRunText :: "clock \<Rightarrow> string" where
  "nextRunText now =
     (if day now = 5 then
        (if hour now < 16 \<or> (hour now = 16 \<and> minute now < 30) then
           (let diffMins = (16 * 60 + 30) - (hour now * 60 + minute now)
            in if diffMins < 60 then ''Starts in '' @ show_nat diffMins @ '' mins''
               else ''Today at 16:30'')
         else if hour now > 16 \<or> (hour now = 16 \<and> minute now > 30) then ''Next run: Next Friday''
         else ''Running Scheduled Task...'')
      else ''Next run: Friday 16:30'')"

definition shouldTrigger :: "config \<Rightarrow> clock \<Rightarrow> app \<Rightarrow> bool" where
  "shouldTrigger cfg now st =
     (autoMode cfg \<and> day now = 5 \<and> (hour now = 16 \<and> minute now = 30) \<and>
      lastRunDate st \<noteq> dateKey now \<and> status st = WAITING)"

text \<open>
  The interval callback. The first component tells whether \<^verbatim>\<open>startGeneration()\<close> was
  called.
\<close>

definition tick :: "config \<Rightarrow> clock \<Rightarrow> app \<Rightarrow> bool \<times> app" where
  "tick cfg now st =
     (let st1 = st\<lparr>countDown := nextRunText now\<rparr>
      in if shouldTrigger cfg now st1
         then (True,
               startGeneration_begin cfg
                 ((addLog (''Auto-Scheduler triggered for '' @ dateKey now) warning st1)
                    \<lparr>lastRunDate := dateKey now\<rparr>))
         else (False, st1))"


text \<open>
  \<^verbatim>\<open>setInterval\<close> runs the callback again and again. Between two ticks the other
  handlers change the state; the ticks below carry, each, the values its callback closes
  over, the time it reads, and what the other handlers do before the next tick. The
  first component of the result counts the ticks that called \<^verbatim>\<open>startGeneration()\<close>.
\<close>

fun runTicks :: "(config \<times> clock \<times> (app \<Rightarrow> app)) list \<Rightarrow> app \<Rightarrow> nat \<times> app" where
  "runTicks [] st = (0, st)"
| "runTicks ((cfg, now, other) # rest) st =
     (case tick cfg now st of
        (fired, st1) \<Rightarrow>
          (case runTicks rest (other st1) of
             (k, st2) \<Rightarrow> ((if fired then 1 else 0) + k, st2)))"

subsection \<open>Example browsers\<close>

text \<open>
  Three sinks for the concrete runs below: one accepts every request, one answers every
  request with HTTP 500, one accepts the first request it sees and answers HTTP 500 from
  then on. On the URLs used below \<^verbatim>\<open>encodeURIComponent\<close> changes nothing.
\<close>

definition sink_ok :: browser where
  "sink_ok = \<lparr>fetch = (\<lambda>h r. Response True 200 [] (JsonData 0 ''ok'')),
             encodeURIComponent = (\<lambda>s. s)\<rparr>"

definition sink_down :: browser where
  "sink_down = \<lparr>fetch = (\<lambda>h r. Response False 500 ''x'' (JsonRejected [])),
               encodeURIComponent = (\<lambda>s. s)\<rparr>"

definition sink_second_fails :: browser where
  "sink_second_fails =
     \<lparr>fetch = (\<lambda>h r. if h = [] then Response True 200 [] (JsonData 0 ''ok'')
                      else Response False 500 ''x'' (JsonRejected [])),
      encodeURIComponent = (\<lambda>s. s)\<rparr>"

definition cfg_nokey :: config where
  "cfg_nokey = \<lparr>apiKey = [], webhookUrl = ''hook'', autoMode = True, requireConfirmation = True\<rparr>"

definition cfg_key :: config where
  "cfg_key = \<lparr>apiKey = ''key'', webhookUrl = ''hook'', autoMode = True, requireConfirmation = True\<rparr>"

definition cfg_auto :: config where
  "cfg_auto = \<lparr>apiKey = ''key'', webhookUrl = ''hook'', autoMode = True, requireConfirmation = False\<rparr>"

definition friday :: clock where
  "friday = \<lparr>day = 5, hour = 16, minute = 30, dateKey = ''06/11/2026''\<rparr>"

definition init :: app where
  "init = \<lparr>status = WAITING, logs = [], lastReport = [], countDown = ''--:--:--'',
           lastRunDate = [], timers = [], io = []\<rparr>"

section \<open>Properties of the split\<close>

lemma split_nl_not_Nil: "split_nl s \<noteq> []"
  by (induction s) (auto split: list.splits)

lemma split_nl_append: "split_nl (a @ newline # b) = split_nl a @ split_nl b"
  by (induction a) (auto split: list.splits simp: split_nl_not_Nil)

lemma split_nl_no_newline: "l \<in> set (split_nl s) \<Longrightarrow> newline \<notin> set l"
  by (induction s arbitrary: l) (auto split: list.splits if_splits)

lemma split_nl_single: "newline \<notin> set l \<Longrightarrow> split_nl l = [l]"
  by (induction l) auto

lemma join_nl_Cons: "ys \<noteq> [] \<Longrightarrow> join_nl (x # ys) = x @ newline # join_nl ys"
  by (cases ys) auto

lemma join_split: "join_nl (split_nl s) = s"
proof (induction s)
  case Nil
  show ?case by simp
next
  case (Cons c s)
  obtain l ls where sp: "split_nl s = l # ls"
    using split_nl_not_Nil [of s] by (cases "split_nl s") auto
  show ?case
  proof (cases "c = newline")
    case True
    then show ?thesis using Cons by (simp add: join_nl_Cons split_nl_not_Nil)
  next
    case False
    then show ?thesis using Cons sp by (cases ls) auto
  qed
qed

lemma join_nl_merge:
  "join_nl (xs @ (a @ newline # b) # ys) = join_nl (xs @ a # b # ys)"
proof (induction xs)
  case Nil
  show ?case by (cases ys) auto
next
  case (Cons x xs)
  then show ?case by (simp add: join_nl_Cons)
qed

lemma splitLoop_lossless:
  "\<forall>l\<in>set lines. l \<noteq> [] \<Longrightarrow>
   join_nl (pending (splitLoop M lines st)) = join_nl (pending st @ lines)"
proof (induction lines arbitrary: st)
  case Nil
  show ?case by simp
next
  case (Cons line lines)
  obtain chunks cur where st: "st = (chunks, cur)" by (cases st)
  from Cons.prems have ne: "line \<noteq> []" and rest: "\<forall>l\<in>set lines. l \<noteq> []" by auto
  show ?case
  proof (cases "length cur + length line + 1 > M")
    case True
    then show ?thesis using Cons.IH [OF rest] st ne by (simp add: pending_def)
  next
    case False
    then show ?thesis
      using Cons.IH [OF rest] st ne join_nl_merge [of chunks cur line lines]
      by (simp add: pending_def)
  qed
qed

lemma makeChunks_pending: "makeChunks M content = pending (splitLoop M (split_nl content) ([], []))"
  by (simp add: makeChunks_def pending_def split: prod.splits)

lemma lossless: "\<forall>l\<in>set (split_nl C). l \<noteq> [] \<Longrightarrow> join_nl (makeChunks M C) = C"
  using splitLoop_lossless [of "split_nl C" M "([], [])"]
  by (simp add: makeChunks_pending pending_def join_split)

lemma splitLoop_lines:
  "\<forall>l\<in>set lines. newline \<notin> set l \<Longrightarrow>
   \<exists>ks. chunk_lines (pending (splitLoop M lines st)) = chunk_lines (pending st) @ ks
       \<and> subseq ks lines \<and> filter (\<lambda>l. l \<noteq> []) ks = filter (\<lambda>l. l \<noteq> []) lines"
proof (induction lines arbitrary: st)
  case Nil
  show ?case by simp
next
  case (Cons line lines)
  obtain chunks cur where st: "st = (chunks, cur)" by (cases st)
  from Cons.prems have nl: "newline \<notin> set line" and rest: "\<forall>l\<in>set lines. newline \<notin> set l" by auto
  define st' where "st' = (if length cur + length line + 1 > M
      then (if cur \<noteq> [] then chunks @ [cur] else chunks, line)
      else (chunks, if cur \<noteq> [] then cur @ [newline] @ line else line))"
  have step: "splitLoop M (line # lines) st = splitLoop M lines st'"
    by (simp add: st st'_def)
  have "\<exists>kl. chunk_lines (pending st') = chunk_lines (pending st) @ kl
           \<and> (kl = [line] \<or> kl = [] \<and> line = [])"
    using nl by (auto simp: st st'_def pending_def chunk_lines_def split_nl_append split_nl_single)
  then obtain kl where pend: "chunk_lines (pending st') = chunk_lines (pending st) @ kl"
    and kl: "kl = [line] \<or> kl = [] \<and> line = []" by blast
  from Cons.IH [OF rest, of st'] obtain ks where
    ks: "chunk_lines (pending (splitLoop M lines st')) = chunk_lines (pending st') @ ks"
      "subseq ks lines" "filter (\<lambda>l. l \<noteq> []) ks = filter (\<lambda>l. l \<noteq> []) lines"
    by blast
  have "chunk_lines (pending (splitLoop M (line # lines) st)) = chunk_lines (pending st) @ (kl @ ks)"
    using step ks(1) pend by simp
  moreover have "subseq (kl @ ks) (line # lines)" using ks(2) kl by auto
  moreover have "filter (\<lambda>l. l \<noteq> []) (kl @ ks) = filter (\<lambda>l. l \<noteq> []) (line # lines)"
    using ks(3) kl by auto
  ultimately show ?case by blast
qed

lemma lines_kept:
  "subseq (chunk_lines (makeChunks M C)) (split_nl C) \<and>
   filter (\<lambda>l. l \<noteq> []) (chunk_lines (makeChunks M C)) = filter (\<lambda>l. l \<noteq> []) (split_nl C)"
  using splitLoop_lines [of "split_nl C" M "([], [])"] split_nl_no_newline [of _ C]
  by (auto simp: makeChunks_pending pending_def chunk_lines_def)


lemma splitLoop_step:
  "splitLoop M (line # lines) (chunks, cur) =
     splitLoop M lines
       (if length cur + length line + 1 > M
        then (if cur \<noteq> [] then chunks @ [cur] else chunks, line)
        else (chunks, if cur \<noteq> [] then cur @ [newline] @ line else line))"
  by simp

lemma splitLoop_bound:
  "\<forall>c\<in>set (pending st). length c \<le> M \<or> c \<in> L \<Longrightarrow> set lines \<subseteq> L \<Longrightarrow>
   \<forall>c\<in>set (pending (splitLoop M lines st)). length c \<le> M \<or> c \<in> L"
proof (induction lines arbitrary: st)
  case Nil
  then show ?case by simp
next
  case (Cons line lines)
  obtain chunks cur where st: "st = (chunks, cur)" by (cases st)
  show ?case
    unfolding st splitLoop_step
    by (rule Cons.IH) (use Cons.prems in \<open>auto simp: st pending_def split: if_splits\<close>)
qed

lemma makeChunks_bound:
  "c \<in> set (makeChunks M C) \<Longrightarrow> length c \<le> M \<or> (c \<in> set (split_nl C) \<and> M < length c)"
  using splitLoop_bound [of "([], [])" M "set (split_nl C)" "split_nl C"]
  by (auto simp: makeChunks_pending pending_def)

lemma splitLoop_nonempty:
  "[] \<notin> set (fst st) \<Longrightarrow> [] \<notin> set (pending (splitLoop M lines st))"
proof (induction lines arbitrary: st)
  case Nil
  then show ?case by (auto simp: pending_def split: prod.splits)
next
  case (Cons line lines)
  obtain chunks cur where st: "st = (chunks, cur)" by (cases st)
  show ?case
    unfolding st splitLoop_step
    by (rule Cons.IH) (use Cons.prems in \<open>auto simp: st\<close>)
qed

lemma makeChunks_nonempty: "[] \<notin> set (makeChunks M C)"
  using splitLoop_nonempty [of "([], [])" M "split_nl C"] by (simp add: makeChunks_pending)

lemma split_nl_only_newlines: "set C \<subseteq> {newline} \<Longrightarrow> set (split_nl C) \<subseteq> {[]}"
  by (induction C) auto

lemma splitLoop_empty_lines:
  "set lines \<subseteq> {[]} \<Longrightarrow> splitLoop M lines (chunks, []) = (chunks, [])"
  by (induction lines) auto

lemma makeChunks_only_newlines: "set C \<subseteq> {newline} \<Longrightarrow> makeChunks M C = []"
  using splitLoop_empty_lines [OF split_nl_only_newlines, of C M "[]"]
  by (simp add: makeChunks_def)

lemma length_join_nl_Cons: "length x \<le> length (join_nl (x # ys))"
  by (cases ys) auto

lemma splitLoop_fits:
  "cur \<noteq> [] \<Longrightarrow> length (join_nl (cur # lines)) \<le> M \<Longrightarrow>
   splitLoop M lines (chunks, cur) = (chunks, join_nl (cur # lines))"
proof (induction lines arbitrary: cur)
  case Nil
  show ?case by simp
next
  case (Cons line lines)
  have len: "length cur + length line + 1 \<le> length (join_nl (cur # line # lines))"
    using length_join_nl_Cons [of line lines] by simp
  have "splitLoop M (line # lines) (chunks, cur) = splitLoop M lines (chunks, cur @ [newline] @ line)"
    using len Cons.prems by simp
  also have "\<dots> = (chunks, join_nl ((cur @ [newline] @ line) # lines))"
    using Cons.prems join_nl_merge [of "[]" cur line lines] by (intro Cons.IH) auto
  also have "join_nl ((cur @ [newline] @ line) # lines) = join_nl (cur # line # lines)"
    using join_nl_merge [of "[]" cur line lines] by simp
  finally show ?case .
qed

lemma makeChunks_single:
  assumes "C \<noteq> []" "hd C \<noteq> newline" "length C \<le> M"
  shows "makeChunks M C = [C]"
proof -
  obtain l ls where sp: "split_nl C = l # ls"
    using split_nl_not_Nil [of C] by (cases "split_nl C") auto
  have l: "l \<noteq> []" using assms(1,2) sp by (cases C) (auto split: if_splits list.splits)
  have j: "join_nl (l # ls) = C" using join_split [of C] sp by simp
  have "splitLoop M (l # ls) ([], []) = splitLoop M ls ([], l)" by simp
  also have "\<dots> = ([], join_nl (l # ls))"
    using l assms(3) j by (intro splitLoop_fits) auto
  finally show ?thesis using assms(1) by (simp add: makeChunks_def sp j)
qed

lemma split_join_chunks:
  "split_nl (join_nl cs) = (if cs = [] then [[]] else chunk_lines cs)"
proof (induction cs rule: join_nl.induct)
  case 1
  show ?case by simp
next
  case (2 x)
  show ?case by (simp add: chunk_lines_def)
next
  case (3 x y ys)
  then show ?case by (simp add: chunk_lines_def split_nl_append)
qed

section \<open>Properties of the send loop\<close>

lemma requests_append: "requests (a @ b) = requests a @ requests b"
  by (induction a rule: requests.induct) auto

lemma sendLoop_Cons_fail:
  "outcome (fetch b (requests tr) (mkRequest u chunk)) = Some e \<Longrightarrow>
   sendLoop b u n i (chunk # rest) tr =
     (Inl e, tr @ [Fetch (mkRequest u chunk),
        ConsoleError (''Failed to send chunk '' @ show_nat (i + 1) @ ''/'' @ show_nat n) e])"
  by (simp add: Let_def)

lemma sendLoop_Cons_ok:
  "outcome (fetch b (requests tr) (mkRequest u chunk)) = None \<Longrightarrow>
   sendLoop b u n i (chunk # rest) tr =
     sendLoop b u n (i + 1) rest
       (tr @ Fetch (mkRequest u chunk) # (if i < n - 1 then [Sleep 300] else []))"
  by (simp add: Let_def)

declare sendLoop.simps(2) [simp del]

lemma sendLoop_requests:
  "\<exists>m\<le>length rest. (rest \<noteq> [] \<longrightarrow> 0 < m) \<and>
     requests (snd (sendLoop b u n i rest tr)) = requests tr @ map (mkRequest u) (take m rest)"
proof (induction rest arbitrary: i tr)
  case Nil
  show ?case by simp
next
  case (Cons chunk rest)
  let ?req = "mkRequest u chunk"
  show ?case
  proof (cases "outcome (fetch b (requests tr) ?req)")
    case (Some e)
    then have "requests (snd (sendLoop b u n i (chunk # rest) tr))
        = requests tr @ map (mkRequest u) (take 1 (chunk # rest))"
      by (simp add: sendLoop_Cons_fail requests_append)
    then show ?thesis by (intro exI [of _ 1]) simp
  next
    case None
    let ?tr = "tr @ Fetch ?req # (if i < n - 1 then [Sleep 300] else [])"
    from Cons.IH [of "i + 1" ?tr] obtain m where m: "m \<le> length rest"
      "requests (snd (sendLoop b u n (i + 1) rest ?tr)) = requests ?tr @ map (mkRequest u) (take m rest)"
      by blast
    have "requests ?tr = requests tr @ [?req]" by (simp add: requests_append)
    then have "requests (snd (sendLoop b u n i (chunk # rest) tr))
        = requests tr @ map (mkRequest u) (take (Suc m) (chunk # rest))"
      using None m(2) by (simp add: sendLoop_Cons_ok)
    then show ?thesis using m(1) by (intro exI [of _ "Suc m"]) simp
  qed
qed

lemma sendLoop_fails_at:
  assumes "k < length rest" "n = i + length rest"
    and "\<forall>j<k. outcome (fetch b (requests tr @ map (mkRequest u) (take j rest)) (mkRequest u (rest ! j))) = None"
    and "outcome (fetch b (requests tr @ map (mkRequest u) (take k rest)) (mkRequest u (rest ! k))) = Some e"
  shows "sendLoop b u n i rest tr =
     (Inl e, tr @ concat (map (\<lambda>c. [Fetch (mkRequest u c), Sleep 300]) (take k rest)) @
        [Fetch (mkRequest u (rest ! k)),
         ConsoleError (''Failed to send chunk '' @ show_nat (i + k + 1) @ ''/'' @ show_nat n) e])"
  using assms
proof (induction rest arbitrary: i tr k)
  case Nil
  then show ?case by simp
next
  case (Cons chunk rest)
  show ?case
  proof (cases k)
    case 0
    then show ?thesis using Cons.prems(4) by (simp add: sendLoop_Cons_fail)
  next
    case (Suc k')
    let ?req = "mkRequest u chunk"
    let ?tr = "tr @ [Fetch ?req, Sleep 300]"
    have first: "outcome (fetch b (requests tr) ?req) = None"
      using Cons.prems(3) Suc by (auto dest: spec [of _ 0])
    have lt: "i < n - 1" using Cons.prems(1,2) Suc by auto
    have req: "requests ?tr = requests tr @ [?req]" by (simp add: requests_append)
    have a: "\<forall>j<k'. outcome (fetch b (requests ?tr @ map (mkRequest u) (take j rest)) (mkRequest u (rest ! j))) = None"
    proof (intro allI impI)
      fix j assume "j < k'"
      then have "Suc j < k" using Suc by simp
      from Cons.prems(3) [rule_format, OF this] show
        "outcome (fetch b (requests ?tr @ map (mkRequest u) (take j rest)) (mkRequest u (rest ! j))) = None"
        by (simp add: req)
    qed
    have c: "outcome (fetch b (requests ?tr @ map (mkRequest u) (take k' rest)) (mkRequest u (rest ! k'))) = Some e"
      using Cons.prems(4) Suc by (simp add: req)
    have "sendLoop b u n (i + 1) rest ?tr =
       (Inl e, ?tr @ concat (map (\<lambda>c. [Fetch (mkRequest u c), Sleep 300]) (take k' rest)) @
        [Fetch (mkRequest u (rest ! k')),
         ConsoleError (''Failed to send chunk '' @ show_nat (i + 1 + k' + 1) @ ''/'' @ show_nat n) e])"
      using Cons.prems(1,2) Suc by (intro Cons.IH [OF _ _ a c]) auto
    then show ?thesis using first lt Suc by (simp add: sendLoop_Cons_ok)
  qed
qed

section \<open>The claims\<close>

lemma payload_inj: "payload c = payload d \<Longrightarrow> c = d"
  by (simp add: payload_def)

lemma sendToWeCom_requests:
  "\<exists>m\<le>length (makeChunks CHUNK_SIZE content).
     (makeChunks CHUNK_SIZE content \<noteq> [] \<longrightarrow> 0 < m) \<and>
     requests (snd (sendToWeCom b w content tr)) =
       requests tr @ map (mkRequest (proxyUrl @ encodeURIComponent b w))
                       (take m (makeChunks CHUNK_SIZE content))"
  using sendLoop_requests [of "makeChunks CHUNK_SIZE content" b "proxyUrl @ encodeURIComponent b w"
      "length (makeChunks CHUNK_SIZE content)" 0 tr]
  by (simp add: sendToWeCom_def Let_def)

subsection \<open>C1: the split is lossless only up to empty lines\<close>

text \<open>
  C1, as amended. Joining the chunks with newlines gives back the content \<open>C\<close> when no
  line of \<open>C\<close> is empty, and when \<open>C\<close> is not empty, does not start with a newline and
  is no longer than the limit \<open>M\<close> (it is then the only chunk). For every content and
  limit, the join differs from \<open>C\<close> at most by empty lines that are missing: the
  non-empty lines are the same, in the same order.
\<close>

theorem split_lossless_without_empty_lines:
  "((\<forall>l\<in>set (split_nl C). l \<noteq> []) \<longrightarrow> join_nl (makeChunks M C) = C) \<and>
   (C \<noteq> [] \<and> hd C \<noteq> newline \<and> length C \<le> M \<longrightarrow> makeChunks M C = [C]) \<and>
   filter (\<lambda>l. l \<noteq> []) (split_nl (join_nl (makeChunks M C))) = filter (\<lambda>l. l \<noteq> []) (split_nl C)"
proof (intro conjI impI)
  assume "\<forall>l\<in>set (split_nl C). l \<noteq> []"
  then show "join_nl (makeChunks M C) = C" by (rule lossless)
next
  assume "C \<noteq> [] \<and> hd C \<noteq> newline \<and> length C \<le> M"
  then show "makeChunks M C = [C]" by (simp add: makeChunks_single)
next
  have "filter (\<lambda>l. l \<noteq> []) (split_nl (join_nl cs)) = filter (\<lambda>l. l \<noteq> []) (chunk_lines cs)" for cs
    by (simp add: split_join_chunks chunk_lines_def)
  then show "filter (\<lambda>l. l \<noteq> []) (split_nl (join_nl (makeChunks M C))) = filter (\<lambda>l. l \<noteq> []) (split_nl C)"
    using lines_kept [of M C] by simp
qed

theorem split_lossless_without_empty_lines_witness:
  "[] \<notin> set (split_nl (''ab'' @ [newline] @ ''cd'')) \<and>
   makeChunks 3 (''ab'' @ [newline] @ ''cd'') = [''ab'', ''cd''] \<and>
   join_nl (makeChunks 3 (''ab'' @ [newline] @ ''cd'')) = ''ab'' @ [newline] @ ''cd'' \<and>
   (''ab'' @ [newline, newline] \<noteq> [] \<and> hd (''ab'' @ [newline, newline]) \<noteq> newline
      \<and> length (''ab'' @ [newline, newline]) \<le> 1024) \<and>
   makeChunks 1024 (''ab'' @ [newline, newline]) = [''ab'' @ [newline, newline]]"
  using split_lossless_without_empty_lines [of "''ab'' @ [newline] @ ''cd''" 3]
    split_lossless_without_empty_lines [of "''ab'' @ [newline, newline]" 1024]
  by (simp add: makeChunks_def newline_def)

text \<open>
  C1 as stated fails: an empty line met while the current chunk is empty is dropped.
  For the content \<^verbatim>\<open>"\nabc"\<close> the only chunk is \<^verbatim>\<open>"abc"\<close>.
\<close>

theorem split_loses_leading_newline:
  "join_nl (makeChunks CHUNK_SIZE (newline # ''abc'')) \<noteq> newline # ''abc''"
  by (simp add: makeChunks_def CHUNK_SIZE_def newline_def)

subsection \<open>C2: chunk sizes\<close>

text \<open>
  C2. Every chunk is at most \<open>M\<close> long, or it is one single line of the content and
  that line is longer than \<open>M\<close>. No line is broken: the lines of the chunks, in order,
  are lines of the content in order, and every non-empty line of the content is among
  them.
\<close>

theorem chunk_size_bounded:
  "(\<forall>c\<in>set (makeChunks M C). length c \<le> M \<or> (c \<in> set (split_nl C) \<and> M < length c)) \<and>
   subseq (chunk_lines (makeChunks M C)) (split_nl C) \<and>
   filter (\<lambda>l. l \<noteq> []) (chunk_lines (makeChunks M C)) = filter (\<lambda>l. l \<noteq> []) (split_nl C)"
  using makeChunks_bound [of _ M C] lines_kept [of M C] by blast

theorem chunk_size_bounded_witness:
  "makeChunks 4 (''abcdef'' @ [newline] @ ''g'' @ [newline] @ ''h'') = [''abcdef'', ''g'' @ [newline] @ ''h''] \<and>
   ''abcdef'' \<in> set (split_nl (''abcdef'' @ [newline] @ ''g'' @ [newline] @ ''h'')) \<and>
   4 < length ''abcdef'' \<and> length (''g'' @ [newline] @ ''h'') \<le> 4 \<and>
   chunk_lines (makeChunks 4 (''abcdef'' @ [newline] @ ''g'' @ [newline] @ ''h'')) = [''abcdef'', ''g'', ''h'']"
  using chunk_size_bounded [of 4 "''abcdef'' @ [newline] @ ''g'' @ [newline] @ ''h''"]
  by (simp add: makeChunks_def newline_def chunk_lines_def)

subsection \<open>C10: nothing is sent for content without text\<close>

text \<open>
  C10. For content that is empty or made of newlines only, there is no chunk, the
  delivery sends nothing and resolves. For every content, no chunk is the empty string
  and no request carries the empty string.
\<close>

theorem only_newlines_send_nothing:
  "(set C \<subseteq> {newline} \<longrightarrow> makeChunks M C = [] \<and> sendToWeCom b w C tr = (Inr (), tr)) \<and>
   [] \<notin> set (makeChunks M C) \<and>
   (\<forall>r\<in>set (requests (snd (sendToWeCom b w C []))). body r \<noteq> payload [])"
proof (intro conjI impI ballI)
  assume "set C \<subseteq> {newline}"
  then show "makeChunks M C = []" by (rule makeChunks_only_newlines)
next
  assume "set C \<subseteq> {newline}"
  then have "makeChunks CHUNK_SIZE C = []" by (rule makeChunks_only_newlines)
  then show "sendToWeCom b w C tr = (Inr (), tr)" by (simp add: sendToWeCom_def)
next
  show "[] \<notin> set (makeChunks M C)" by (rule makeChunks_nonempty)
next
  fix r assume r: "r \<in> set (requests (snd (sendToWeCom b w C [])))"
  from sendToWeCom_requests [of C b w "[]"] obtain m where
    "requests (snd (sendToWeCom b w C [])) =
       map (mkRequest (proxyUrl @ encodeURIComponent b w)) (take m (makeChunks CHUNK_SIZE C))"
    by auto
  with r obtain c where c: "c \<in> set (take m (makeChunks CHUNK_SIZE C))"
    and rc: "r = mkRequest (proxyUrl @ encodeURIComponent b w) c" by auto
  from c have "c \<in> set (makeChunks CHUNK_SIZE C)" by (rule in_set_takeD)
  then have "c \<noteq> []" using makeChunks_nonempty [of CHUNK_SIZE C] by auto
  then show "body r \<noteq> payload []" using rc payload_inj [of c "[]"] by (auto simp: mkRequest_def)
qed

theorem only_newlines_send_nothing_witness:
  "set [newline, newline] \<subseteq> {newline} \<and> makeChunks 1024 [newline, newline] = [] \<and>
   sendToWeCom sink_ok ''hook'' [newline, newline] [] = (Inr (), []) \<and>
   requests (snd (sendToWeCom sink_ok ''hook'' ([newline] @ ''hi'') [])) =
     [mkRequest (proxyUrl @ ''hook'') ''hi''] \<and>
   body (mkRequest (proxyUrl @ ''hook'') ''hi'') \<noteq> payload []"
  using only_newlines_send_nothing [of "[newline, newline]" 1024 sink_ok "''hook''" "[]"]
    only_newlines_send_nothing [of "[newline] @ ''hi''" 1024 sink_ok "''hook''" "[]"]
  by (simp add: sendToWeCom_def makeChunks_def CHUNK_SIZE_def newline_def sink_ok_def
      sendLoop_Cons_ok mkRequest_def payload_def)

subsection \<open>C3: the delivery stops at the first failing chunk\<close>

lemma split_nl_replicate_line:
  "c \<noteq> newline \<Longrightarrow> split_nl (replicate n c @ newline # rest) = replicate n c # split_nl rest"
  by (simp add: split_nl_append split_nl_single)

lemma two_chunks:
  "makeChunks CHUNK_SIZE (replicate 1024 CHR ''a'' @ newline # ''b'') = [replicate 1024 CHR ''a'', ''b'']"
proof -
  have ne: "CHR ''a'' \<noteq> newline" by (simp add: newline_def)
  have sb: "split_nl ''b'' = [''b'']" by (simp add: newline_def)
  have "split_nl (replicate 1024 CHR ''a'' @ newline # ''b'') = [replicate 1024 CHR ''a'', ''b'']"
    using split_nl_replicate_line [OF ne, of 1024 "''b''"] sb by simp
  then show ?thesis by (simp add: makeChunks_def CHUNK_SIZE_def)
qed

text \<open>
  C3, as amended. When the sink accepts the chunks before chunk \<open>k\<close> and the send of
  chunk \<open>k\<close> fails, the delivery sends exactly the chunks \<open>0..k\<close>, with a pause of
  300 ms after each accepted one, and rejects with the error of the failed send itself.
  That error carries its message only: the position \<open>k + 1\<close> and the number of chunks
  go to the console. A rejected fetch, a response that is not ok, a body that is not
  JSON and a non-zero \<^verbatim>\<open>errcode\<close> all are failures; an ok response with
  \<^verbatim>\<open>errcode\<close> 0 is the only success.
\<close>

theorem delivery_stops_at_first_failure:
  assumes "k < length (makeChunks CHUNK_SIZE content)"
    and "\<forall>j<k. outcome (fetch b
            (requests tr @ map (mkRequest (proxyUrl @ encodeURIComponent b w))
                             (take j (makeChunks CHUNK_SIZE content)))
            (mkRequest (proxyUrl @ encodeURIComponent b w) (makeChunks CHUNK_SIZE content ! j))) = None"
    and "outcome (fetch b
            (requests tr @ map (mkRequest (proxyUrl @ encodeURIComponent b w))
                             (take k (makeChunks CHUNK_SIZE content)))
            (mkRequest (proxyUrl @ encodeURIComponent b w) (makeChunks CHUNK_SIZE content ! k))) = Some e"
  shows "sendToWeCom b w content tr =
      (Inl e,
       tr @ concat (map (\<lambda>c. [Fetch (mkRequest (proxyUrl @ encodeURIComponent b w) c), Sleep 300])
                      (take k (makeChunks CHUNK_SIZE content))) @
         [Fetch (mkRequest (proxyUrl @ encodeURIComponent b w) (makeChunks CHUNK_SIZE content ! k)),
          ConsoleError (''Failed to send chunk '' @ show_nat (k + 1) @ ''/'' @
                        show_nat (length (makeChunks CHUNK_SIZE content))) e]) \<and>
     outcome (Rejected m) = Some (Error m) \<and>
     outcome (Response False s t d) = Some (Error (''HTTP '' @ show_nat s @ '': '' @ t)) \<and>
     outcome (Response True s t (JsonRejected m)) = Some (Error m) \<and>
     (c \<noteq> 0 \<longrightarrow> outcome (Response True s t (JsonData c m)) =
         Some (Error (''WeCom API Error ('' @ show_int c @ ''): '' @ m))) \<and>
     outcome (Response True s t (JsonData 0 m)) = None"
proof -
  have "sendToWeCom b w content tr =
      sendLoop b (proxyUrl @ encodeURIComponent b w) (length (makeChunks CHUNK_SIZE content)) 0
        (makeChunks CHUNK_SIZE content) tr"
    by (simp add: sendToWeCom_def Let_def)
  also have "\<dots> = (Inl e,
       tr @ concat (map (\<lambda>c. [Fetch (mkRequest (proxyUrl @ encodeURIComponent b w) c), Sleep 300])
                      (take k (makeChunks CHUNK_SIZE content))) @
         [Fetch (mkRequest (proxyUrl @ encodeURIComponent b w) (makeChunks CHUNK_SIZE content ! k)),
          ConsoleError (''Failed to send chunk '' @ show_nat (0 + k + 1) @ ''/'' @
                        show_nat (length (makeChunks CHUNK_SIZE content))) e])"
    using assms by (intro sendLoop_fails_at) auto
  finally show ?thesis by simp
qed

theorem delivery_stops_at_first_failure_witness:
  "makeChunks CHUNK_SIZE (replicate 1024 CHR ''a'' @ newline # ''b'') = [replicate 1024 CHR ''a'', ''b''] \<and>
   outcome (fetch sink_second_fails [] (mkRequest (proxyUrl @ ''hook'') (replicate 1024 CHR ''a''))) = None \<and>
   outcome (fetch sink_second_fails [mkRequest (proxyUrl @ ''hook'') (replicate 1024 CHR ''a'')]
              (mkRequest (proxyUrl @ ''hook'') ''b'')) = Some (Error ''HTTP 500: x'') \<and>
   sendToWeCom sink_second_fails ''hook'' (replicate 1024 CHR ''a'' @ newline # ''b'') [] =
     (Inl (Error ''HTTP 500: x''),
      [Fetch (mkRequest (proxyUrl @ ''hook'') (replicate 1024 CHR ''a'')), Sleep 300,
       Fetch (mkRequest (proxyUrl @ ''hook'') ''b''),
       ConsoleError ''Failed to send chunk 2/2'' (Error ''HTTP 500: x'')])"
  using delivery_stops_at_first_failure [of 1 "replicate 1024 CHR ''a'' @ newline # ''b''"
      sink_second_fails "[]" "''hook''" "Error ''HTTP 500: x''"]
  by (simp add: two_chunks sink_second_fails_def show_nat.simps digit_def)

text \<open>
  C3 as stated fails: the error handed to the caller is the same for a failure at
  chunk 0 of 1 and for a failure at chunk 1 of 2, so it carries neither the index nor
  the count.
\<close>

theorem delivery_error_has_no_index:
  "sendToWeCom sink_down ''hook'' ''a'' [] =
     (Inl (Error ''HTTP 500: x''),
      [Fetch (mkRequest (proxyUrl @ ''hook'') ''a''),
       ConsoleError ''Failed to send chunk 1/1'' (Error ''HTTP 500: x'')]) \<and>
   sendToWeCom sink_second_fails ''hook'' (replicate 1024 CHR ''a'' @ newline # ''b'') [] =
     (Inl (Error ''HTTP 500: x''),
      [Fetch (mkRequest (proxyUrl @ ''hook'') (replicate 1024 CHR ''a'')), Sleep 300,
       Fetch (mkRequest (proxyUrl @ ''hook'') ''b''),
       ConsoleError ''Failed to send chunk 2/2'' (Error ''HTTP 500: x'')])"
proof -
  have one: "makeChunks CHUNK_SIZE ''a'' = [''a'']"
    by (simp add: makeChunks_def CHUNK_SIZE_def newline_def)
  show ?thesis
    by (simp add: sendToWeCom_def one two_chunks sendLoop_Cons_ok sendLoop_Cons_fail
        sink_down_def sink_second_fails_def show_nat.simps digit_def)
qed

subsection \<open>C9: what is posted\<close>

text \<open>
  C9, as amended. Every request of a delivery is a POST with the header
  \<^verbatim>\<open>Content-Type: application/json\<close>, to the proxy address followed by the encoded
  webhook address, and its body is
  \<^verbatim>\<open>{msgtype: "markdown", markdown: {content: <chunk>}}\<close>, for the chunks in order
  from the first.
\<close>

theorem payload_is_wecom_markdown:
  "\<exists>m\<le>length (makeChunks CHUNK_SIZE content).
     requests (snd (sendToWeCom b w content tr)) =
       requests tr @
       map (\<lambda>c. \<lparr>url = proxyUrl @ encodeURIComponent b w, http_method = ''POST'',
                  headers = [(''Content-Type'', ''application/json'')],
                  body = JObject [(''msgtype'', JString ''markdown''),
                                  (''markdown'', JObject [(''content'', JString c)])]\<rparr>)
           (take m (makeChunks CHUNK_SIZE content))"
proof -
  from sendToWeCom_requests [of content b w tr] obtain m where
    m: "m \<le> length (makeChunks CHUNK_SIZE content)"
      "requests (snd (sendToWeCom b w content tr)) =
         requests tr @ map (mkRequest (proxyUrl @ encodeURIComponent b w))
                         (take m (makeChunks CHUNK_SIZE content))"
    by blast
  have "mkRequest (proxyUrl @ encodeURIComponent b w) =
      (\<lambda>c. \<lparr>url = proxyUrl @ encodeURIComponent b w, http_method = ''POST'',
                  headers = [(''Content-Type'', ''application/json'')],
                  body = JObject [(''msgtype'', JString ''markdown''),
                                  (''markdown'', JObject [(''content'', JString c)])]\<rparr>)"
    by (rule ext) (simp add: mkRequest_def payload_def)
  with m show ?thesis by auto
qed

theorem payload_is_wecom_markdown_witness:
  "requests (snd (sendToWeCom sink_ok ''hook'' ''hi'' [])) =
     [\<lparr>url = ''https://corsproxy.io/?hook'', http_method = ''POST'',
       headers = [(''Content-Type'', ''application/json'')],
       body = JObject [(''msgtype'', JString ''markdown''),
                       (''markdown'', JObject [(''content'', JString ''hi'')])]\<rparr>]"
proof -
  have one: "makeChunks CHUNK_SIZE ''hi'' = [''hi'']"
    by (simp add: makeChunks_def CHUNK_SIZE_def newline_def)
  from payload_is_wecom_markdown [of "''hi''" sink_ok "''hook''" "[]"] obtain m where
    "m \<le> 1" and r: "requests (snd (sendToWeCom sink_ok ''hook'' ''hi'' [])) =
       map (\<lambda>c. \<lparr>url = proxyUrl @ encodeURIComponent sink_ok ''hook'', http_method = ''POST'',
                  headers = [(''Content-Type'', ''application/json'')],
                  body = JObject [(''msgtype'', JString ''markdown''),
                                  (''markdown'', JObject [(''content'', JString c)])]\<rparr>)
           (take m [''hi''])"
    by (auto simp: one)
  have "length (requests (snd (sendToWeCom sink_ok ''hook'' ''hi'' []))) = 1"
    by (simp add: sendToWeCom_def one sendLoop_Cons_ok sink_ok_def)
  with r have "m \<noteq> 0" by auto
  with \<open>m \<le> 1\<close> have "m = 1" by simp
  with r show ?thesis by (simp add: proxyUrl_def sink_ok_def)
qed

text \<open>
  C9 as stated fails: the body is not \<^verbatim>\<open>{type: "markdown", content: <chunk>}\<close>, and
  the address is not the webhook address.
\<close>

theorem payload_is_not_type_content:
  "map body (requests (snd (sendToWeCom sink_ok ''hook'' ''hi'' []))) \<noteq>
     [JObject [(''type'', JString ''markdown''), (''content'', JString ''hi'')]] \<and>
   map url (requests (snd (sendToWeCom sink_ok ''hook'' ''hi'' []))) \<noteq> [''hook'']"
proof -
  have one: "makeChunks CHUNK_SIZE ''hi'' = [''hi'']"
    by (simp add: makeChunks_def CHUNK_SIZE_def newline_def)
  show ?thesis
    by (simp add: sendToWeCom_def one sendLoop_Cons_ok sink_ok_def mkRequest_def payload_def
        proxyUrl_def)
qed

section \<open>Properties of the workflow\<close>

lemmas app_ops = addLog_def setStatus_def setTimeout_def

lemma executeSend_begin_fields:
  "status (executeSend_begin st) = SENDING"
  "logs (executeSend_begin st) = logs st @ [\<lparr>log_message = ''Sending report to WeCom...'', log_type = info\<rparr>]"
  "lastReport (executeSend_begin st) = lastReport st"
  "lastRunDate (executeSend_begin st) = lastRunDate st"
  "timers (executeSend_begin st) = timers st"
  "io (executeSend_begin st) = io st"
  by (simp_all add: executeSend_begin_def app_ops)

lemma executeSend_finish_Inl:
  "status (executeSend_finish (Inl e) st) = REVIEWING"
  "logs (executeSend_finish (Inl e) st) = logs st @
     [\<lparr>log_message = ''Send Failed: '' @ message e @ ''. Please click 'Approve & Send' to retry.'',
       log_type = error\<rparr>]"
  "lastReport (executeSend_finish (Inl e) st) = lastReport st"
  "timers (executeSend_finish (Inl e) st) = timers st"
  "requests (io (executeSend_finish (Inl e) st)) = requests (io st)"
  by (simp_all add: app_ops Let_def requests_append)

lemma executeSend_finish_Inr:
  "status (executeSend_finish (Inr u) st) = COMPLETED"
  "logs (executeSend_finish (Inr u) st) = logs st @
     [\<lparr>log_message = ''Successfully pushed to Enterprise WeChat.'', log_type = success\<rparr>,
      \<lparr>log_message = ''Workflow complete. Resetting for next cycle.'', log_type = success\<rparr>]"
  "lastReport (executeSend_finish (Inr u) st) = lastReport st"
  "timers (executeSend_finish (Inr u) st) = timers st @ [60000]"
  "io (executeSend_finish (Inr u) st) = io st"
  by (simp_all add: app_ops)

lemma executeSend_finish_lastRunDate:
  "lastRunDate (executeSend_finish r st) = lastRunDate st"
  by (cases r) (simp_all add: app_ops Let_def)

declare executeSend_finish.simps [simp del]

lemma executeSend_unfold:
  "executeSend b cfg content st =
     executeSend_finish (fst (sendToWeCom b (webhookUrl cfg) content (io st)))
       ((executeSend_begin st)\<lparr>io := snd (sendToWeCom b (webhookUrl cfg) content (io st))\<rparr>)"
  by (simp add: executeSend_def Let_def executeSend_begin_fields split: prod.splits)

lemma sendToWeCom_fails_nonempty:
  "fst (sendToWeCom b w content tr) = Inl e \<Longrightarrow> makeChunks CHUNK_SIZE content \<noteq> []"
  by (auto simp: sendToWeCom_def Let_def)

lemma one_chunk_r: "makeChunks CHUNK_SIZE ''r'' = [''r'']"
  by (simp add: makeChunks_def CHUNK_SIZE_def newline_def)

lemma startGeneration_begin_guard:
  "status st = SEARCHING \<or> status st = GENERATING \<Longrightarrow> startGeneration_begin cfg st = st"
  by (auto simp: startGeneration_begin_def)

lemma startGeneration_begin_nokey:
  assumes "status st \<noteq> SEARCHING" "status st \<noteq> GENERATING" "apiKey cfg = []"
  shows "status (startGeneration_begin cfg st) = ERROR"
    "logs (startGeneration_begin cfg st) =
       logs st @ [\<lparr>log_message = ''API Key missing. Cannot execute workflow.'', log_type = error\<rparr>]"
    "timers (startGeneration_begin cfg st) = timers st @ [5000]"
    "io (startGeneration_begin cfg st) = io st"
  using assms by (simp_all add: startGeneration_begin_def app_ops)

lemma startGeneration_begin_key:
  assumes "status st \<noteq> SEARCHING" "status st \<noteq> GENERATING" "apiKey cfg \<noteq> []"
  shows "status (startGeneration_begin cfg st) = GENERATING"
    "logs (startGeneration_begin cfg st) =
       logs st @ [\<lparr>log_message = ''Starting workflow: Scanning data sources...'', log_type = info\<rparr>,
                  \<lparr>log_message = ''Analysing clinical trials with Gemini 2.5...'', log_type = info\<rparr>]"
    "timers (startGeneration_begin cfg st) = timers st"
    "io (startGeneration_begin cfg st) = io st @ [Generate (apiKey cfg)]"
  using assms by (simp_all add: startGeneration_begin_def app_ops Let_def)

lemma startGeneration_begin_lastRunDate:
  "lastRunDate (startGeneration_begin cfg st) = lastRunDate st"
  by (simp add: startGeneration_begin_def app_ops Let_def)

subsection \<open>C7: a failed delivery returns to the review\<close>

text \<open>
  C7. When the delivery of the stored report fails, the status goes to \<open>SENDING\<close> and
  then back to \<open>REVIEWING\<close>, not to \<open>ERROR\<close>; the stored report is unchanged; the log
  gains the "Sending" entry and exactly one error entry; no timer is set. The next
  approval, whatever the sink does then, sends the chunks of the same report again,
  beginning with chunk 0.
\<close>

theorem send_failure_returns_to_review:
  assumes "fst (sendToWeCom b (webhookUrl cfg) (lastReport st) (io st)) = Inl e"
  shows "status (executeSend_begin st) = SENDING \<and>
     status (approve b cfg st) = REVIEWING \<and>
     lastReport (approve b cfg st) = lastReport st \<and>
     logs (approve b cfg st) = logs st @
       [\<lparr>log_message = ''Sending report to WeCom...'', log_type = info\<rparr>,
        \<lparr>log_message = ''Send Failed: '' @ message e @ ''. Please click 'Approve & Send' to retry.'',
         log_type = error\<rparr>] \<and>
     timers (approve b cfg st) = timers st \<and>
     (\<exists>m. 0 < m \<and> m \<le> length (makeChunks CHUNK_SIZE (lastReport st)) \<and>
        requests (io (approve b' cfg' (approve b cfg st))) =
          requests (io (approve b cfg st)) @
          map (mkRequest (proxyUrl @ encodeURIComponent b' (webhookUrl cfg')))
            (take m (makeChunks CHUNK_SIZE (lastReport st))))"
proof -
  let ?st1 = "approve b cfg st"
  have st1: "?st1 = executeSend_finish (Inl e)
       ((executeSend_begin st)\<lparr>io := snd (sendToWeCom b (webhookUrl cfg) (lastReport st) (io st))\<rparr>)"
    using assms by (simp add: approve_def executeSend_unfold)
  have a: "status ?st1 = REVIEWING" "lastReport ?st1 = lastReport st" "timers ?st1 = timers st"
    unfolding st1 by (simp_all add: executeSend_finish_Inl executeSend_begin_fields)
  have l: "logs ?st1 = logs st @
       [\<lparr>log_message = ''Sending report to WeCom...'', log_type = info\<rparr>,
        \<lparr>log_message = ''Send Failed: '' @ message e @ ''. Please click 'Approve & Send' to retry.'',
         log_type = error\<rparr>]"
    unfolding st1 by (simp add: executeSend_finish_Inl executeSend_begin_fields)
  have ne: "makeChunks CHUNK_SIZE (lastReport st) \<noteq> []"
    using assms by (rule sendToWeCom_fails_nonempty)
  let ?r = "fst (sendToWeCom b' (webhookUrl cfg') (lastReport ?st1) (io ?st1))"
  let ?tr = "snd (sendToWeCom b' (webhookUrl cfg') (lastReport ?st1) (io ?st1))"
  have "requests (io (approve b' cfg' ?st1)) = requests ?tr"
    by (cases ?r) (simp_all add: approve_def executeSend_unfold executeSend_finish_Inl
        executeSend_finish_Inr)
  moreover from sendToWeCom_requests [of "lastReport ?st1" b' "webhookUrl cfg'" "io ?st1"] ne
  obtain m where "0 < m" "m \<le> length (makeChunks CHUNK_SIZE (lastReport st))"
    "requests ?tr = requests (io ?st1) @
       map (mkRequest (proxyUrl @ encodeURIComponent b' (webhookUrl cfg')))
         (take m (makeChunks CHUNK_SIZE (lastReport st)))"
    by (auto simp: a(2))
  ultimately show ?thesis using a l by (auto simp: executeSend_begin_fields)
qed

theorem send_failure_returns_to_review_witness:
  "fst (sendToWeCom sink_down (webhookUrl cfg_key) ''r'' []) = Inl (Error ''HTTP 500: x'') \<and>
   status (approve sink_down cfg_key (init\<lparr>status := REVIEWING, lastReport := ''r''\<rparr>)) = REVIEWING \<and>
   lastReport (approve sink_down cfg_key (init\<lparr>status := REVIEWING, lastReport := ''r''\<rparr>)) = ''r'' \<and>
   logs (approve sink_down cfg_key (init\<lparr>status := REVIEWING, lastReport := ''r''\<rparr>)) =
     [\<lparr>log_message = ''Sending report to WeCom...'', log_type = info\<rparr>,
      \<lparr>log_message = ''Send Failed: HTTP 500: x. Please click 'Approve & Send' to retry.'',
       log_type = error\<rparr>] \<and>
   requests (io (approve sink_down cfg_key (init\<lparr>status := REVIEWING, lastReport := ''r''\<rparr>))) =
     [mkRequest (proxyUrl @ ''hook'') ''r''] \<and>
   requests (io (approve sink_ok cfg_key
       (approve sink_down cfg_key (init\<lparr>status := REVIEWING, lastReport := ''r''\<rparr>)))) =
     [mkRequest (proxyUrl @ ''hook'') ''r'', mkRequest (proxyUrl @ ''hook'') ''r'']"
proof -
  have f: "sendToWeCom sink_down (webhookUrl cfg_key) ''r'' [] =
      (Inl (Error ''HTTP 500: x''),
       [Fetch (mkRequest (proxyUrl @ ''hook'') ''r''),
        ConsoleError ''Failed to send chunk 1/1'' (Error ''HTTP 500: x'')])"
    by (simp add: sendToWeCom_def one_chunk_r sendLoop_Cons_fail sink_down_def cfg_key_def
        show_nat.simps digit_def)
  have g: "sendToWeCom sink_ok (webhookUrl cfg_key) ''r'' tr =
      (Inr (), tr @ [Fetch (mkRequest (proxyUrl @ ''hook'') ''r'')])" for tr
    by (simp add: sendToWeCom_def one_chunk_r sendLoop_Cons_ok sink_ok_def cfg_key_def)
  show ?thesis
    using send_failure_returns_to_review [of sink_down cfg_key
        "init\<lparr>status := REVIEWING, lastReport := ''r''\<rparr>" "Error ''HTTP 500: x''" sink_ok cfg_key]
    by (simp add: f g init_def approve_def executeSend_unfold executeSend_finish_Inl
        executeSend_finish_Inr executeSend_begin_fields requests_append)
qed

subsection \<open>C8: the guard of the generation\<close>

text \<open>
  C8. Started in the status \<open>SEARCHING\<close> or \<open>GENERATING\<close>, the generation changes
  nothing: no status change, no log entry, no call of the generation service. Started
  in any other status it runs: with a key it goes to \<open>GENERATING\<close> and calls the
  generation service, without a key it goes to \<open>ERROR\<close> and sets the 5 s timer.
\<close>

theorem start_guard:
  "(status st = SEARCHING \<or> status st = GENERATING \<longrightarrow> startGeneration_begin cfg st = st) \<and>
   (status st \<noteq> SEARCHING \<and> status st \<noteq> GENERATING \<and> apiKey cfg \<noteq> [] \<longrightarrow>
      status (startGeneration_begin cfg st) = GENERATING \<and>
      io (startGeneration_begin cfg st) = io st @ [Generate (apiKey cfg)] \<and>
      logs (startGeneration_begin cfg st) =
        logs st @ [\<lparr>log_message = ''Starting workflow: Scanning data sources...'', log_type = info\<rparr>,
                   \<lparr>log_message = ''Analysing clinical trials with Gemini 2.5...'', log_type = info\<rparr>]) \<and>
   (status st \<noteq> SEARCHING \<and> status st \<noteq> GENERATING \<and> apiKey cfg = [] \<longrightarrow>
      status (startGeneration_begin cfg st) = ERROR \<and>
      io (startGeneration_begin cfg st) = io st \<and>
      timers (startGeneration_begin cfg st) = timers st @ [5000] \<and>
      logs (startGeneration_begin cfg st) =
        logs st @ [\<lparr>log_message = ''API Key missing. Cannot execute workflow.'', log_type = error\<rparr>])"
  using startGeneration_begin_guard [of st cfg] startGeneration_begin_key [of st cfg]
    startGeneration_begin_nokey [of st cfg]
  by blast

theorem start_guard_witness:
  "status (init\<lparr>status := GENERATING\<rparr>) = GENERATING \<and>
   startGeneration_begin cfg_key (init\<lparr>status := GENERATING\<rparr>) = init\<lparr>status := GENERATING\<rparr> \<and>
   startGeneration_begin cfg_key (init\<lparr>status := SEARCHING\<rparr>) = init\<lparr>status := SEARCHING\<rparr> \<and>
   status (startGeneration_begin cfg_key (init\<lparr>status := REVIEWING\<rparr>)) = GENERATING \<and>
   io (startGeneration_begin cfg_key (init\<lparr>status := REVIEWING\<rparr>)) = [Generate ''key''] \<and>
   status (startGeneration_begin cfg_key (init\<lparr>status := SENDING\<rparr>)) = GENERATING \<and>
   status (startGeneration_begin cfg_nokey init) = ERROR \<and>
   timers (startGeneration_begin cfg_nokey init) = [5000]"
  using start_guard [of "init\<lparr>status := GENERATING\<rparr>" cfg_key]
    start_guard [of "init\<lparr>status := SEARCHING\<rparr>" cfg_key]
    start_guard [of "init\<lparr>status := REVIEWING\<rparr>" cfg_key]
    start_guard [of "init\<lparr>status := SENDING\<rparr>" cfg_key]
    start_guard [of init cfg_nokey]
  by (simp add: init_def cfg_key_def cfg_nokey_def)

subsection \<open>C5: the reversion timers\<close>

lemma fireTimer_fields:
  "k < length (timers st) \<Longrightarrow> status (fireTimer k st) = WAITING"
  "logs (fireTimer k st) = logs st"
  "lastReport (fireTimer k st) = lastReport st"
  "lastRunDate (fireTimer k st) = lastRunDate st"
  "io (fireTimer k st) = io st"
  "k < length (timers st) \<Longrightarrow> timers (fireTimer k st) = take k (timers st) @ drop (Suc k) (timers st)"
  by (simp_all add: fireTimer_def app_ops)


lemma executeSend_lastRunDate: "lastRunDate (executeSend b cfg content st) = lastRunDate st"
  by (simp add: executeSend_unfold executeSend_finish_lastRunDate executeSend_begin_fields)

lemma startGeneration_resume_lastRunDate:
  "lastRunDate (startGeneration_resume b cfg r st) = lastRunDate st"
  by (cases r) (simp_all add: app_ops Let_def executeSend_lastRunDate)

declare startGeneration_resume.simps [simp del]




subsection \<open>C6: the approval is guarded by the button only\<close>

lemma executeSend_finish_io:
  "io (executeSend_finish r st) =
     io st @ (case r of
                Inl e \<Rightarrow> [Alert (''Failed to send report: '' @ message e @ [newline, newline] @
                                 ''Please check your network or webhook URL and try again.'')]
              | Inr u \<Rightarrow> [])"
  by (cases r) (simp_all add: executeSend_finish.simps app_ops Let_def)

lemma sendToWeCom_ok_r:
  "sendToWeCom sink_ok ''hook'' ''r'' tr = (Inr (), tr @ [Fetch (mkRequest (proxyUrl @ ''hook'') ''r'')])"
  by (simp add: sendToWeCom_def one_chunk_r sendLoop_Cons_ok sink_ok_def)

text \<open>
  C6, as amended. The "Approve & Send" button is rendered in the status \<open>REVIEWING\<close>
  only: in another status there is no click on it, and in \<open>REVIEWING\<close> a click runs
  \<^verbatim>\<open>executeSend(lastReport)\<close>. The operation itself does not look at the status. From
  every status it sets \<open>SENDING\<close>, appends the log entry "Sending report to WeCom..." and
  runs the delivery of the content: the effects are those of the delivery, followed by
  an alert when it fails, and the requests are those of the chunks from chunk 0. It ends
  in \<open>COMPLETED\<close> with two more log entries and the 60 s timer when the delivery
  succeeds, in \<open>REVIEWING\<close> with one error entry when it fails, and leaves the stored
  report alone. When no confirmation is required, the generation runs it right after
  storing the report, in whatever status the state has then; when confirmation is
  required, the generation goes to \<open>REVIEWING\<close> and sends nothing.
\<close>

theorem approve_has_no_status_guard:
  "(status st \<noteq> REVIEWING \<longrightarrow> click b cfg ApproveSend st = None) \<and>
   (status st = REVIEWING \<longrightarrow>
      click b cfg ApproveSend st = Some (cfg, executeSend b cfg (lastReport st) st)) \<and>
   status (executeSend_begin st) = SENDING \<and>
   logs (executeSend_begin st) =
     logs st @ [\<lparr>log_message = ''Sending report to WeCom...'', log_type = info\<rparr>] \<and>
   io (executeSend b cfg content st) =
     snd (sendToWeCom b (webhookUrl cfg) content (io st)) @
     (case fst (sendToWeCom b (webhookUrl cfg) content (io st)) of
        Inl e \<Rightarrow> [Alert (''Failed to send report: '' @ message e @ [newline, newline] @
                         ''Please check your network or webhook URL and try again.'')]
      | Inr u \<Rightarrow> []) \<and>
   (\<exists>m\<le>length (makeChunks CHUNK_SIZE content).
      (makeChunks CHUNK_SIZE content \<noteq> [] \<longrightarrow> 0 < m) \<and>
      requests (io (executeSend b cfg content st)) =
        requests (io st) @
        map (mkRequest (proxyUrl @ encodeURIComponent b (webhookUrl cfg)))
          (take m (makeChunks CHUNK_SIZE content))) \<and>
   (fst (sendToWeCom b (webhookUrl cfg) content (io st)) = Inr () \<longrightarrow>
      status (executeSend b cfg content st) = COMPLETED \<and>
      timers (executeSend b cfg content st) = timers st @ [60000] \<and>
      logs (executeSend b cfg content st) = logs st @
        [\<lparr>log_message = ''Sending report to WeCom...'', log_type = info\<rparr>,
         \<lparr>log_message = ''Successfully pushed to Enterprise WeChat.'', log_type = success\<rparr>,
         \<lparr>log_message = ''Workflow complete. Resetting for next cycle.'', log_type = success\<rparr>]) \<and>
   (\<forall>e. fst (sendToWeCom b (webhookUrl cfg) content (io st)) = Inl e \<longrightarrow>
      status (executeSend b cfg content st) = REVIEWING \<and>
      timers (executeSend b cfg content st) = timers st \<and>
      logs (executeSend b cfg content st) = logs st @
        [\<lparr>log_message = ''Sending report to WeCom...'', log_type = info\<rparr>,
         \<lparr>log_message = ''Send Failed: '' @ message e @ ''. Please click 'Approve & Send' to retry.'',
          log_type = error\<rparr>]) \<and>
   lastReport (executeSend b cfg content st) = lastReport st \<and>
   (\<not> requireConfirmation cfg \<longrightarrow>
      startGeneration_resume b cfg (Inr r) st =
        executeSend b cfg r
          (st\<lparr>lastReport := r,
              logs := logs st @ [\<lparr>log_message = ''Report generated. Preparing for review.'',
                                     log_type = success\<rparr>]\<rparr>)) \<and>
   (requireConfirmation cfg \<longrightarrow>
      status (startGeneration_resume b cfg (Inr r) st) = REVIEWING \<and>
      lastReport (startGeneration_resume b cfg (Inr r) st) = r \<and>
      io (startGeneration_resume b cfg (Inr r) st) = io st)"
proof -
  let ?r = "fst (sendToWeCom b (webhookUrl cfg) content (io st))"
  let ?tr = "snd (sendToWeCom b (webhookUrl cfg) content (io st))"
  have c1: "status st \<noteq> REVIEWING \<longrightarrow> click b cfg ApproveSend st = None" by simp
  have c2: "status st = REVIEWING \<longrightarrow>
      click b cfg ApproveSend st = Some (cfg, executeSend b cfg (lastReport st) st)"
    by (simp add: approve_def)
  have c3: "status (executeSend_begin st) = SENDING"
    "logs (executeSend_begin st) =
       logs st @ [\<lparr>log_message = ''Sending report to WeCom...'', log_type = info\<rparr>]"
    by (simp_all add: executeSend_begin_fields)
  have c4: "io (executeSend b cfg content st) =
     ?tr @ (case ?r of
        Inl e \<Rightarrow> [Alert (''Failed to send report: '' @ message e @ [newline, newline] @
                         ''Please check your network or webhook URL and try again.'')]
      | Inr u \<Rightarrow> [])"
    by (simp add: executeSend_unfold executeSend_finish_io)
  have "requests (io (executeSend b cfg content st)) = requests ?tr"
    unfolding c4 by (cases ?r) (simp_all add: requests_append)
  with sendToWeCom_requests [of content b "webhookUrl cfg" "io st"]
  have c5: "\<exists>m\<le>length (makeChunks CHUNK_SIZE content).
      (makeChunks CHUNK_SIZE content \<noteq> [] \<longrightarrow> 0 < m) \<and>
      requests (io (executeSend b cfg content st)) =
        requests (io st) @
        map (mkRequest (proxyUrl @ encodeURIComponent b (webhookUrl cfg)))
          (take m (makeChunks CHUNK_SIZE content))"
    by simp
  have c6: "?r = Inr () \<longrightarrow>
      status (executeSend b cfg content st) = COMPLETED \<and>
      timers (executeSend b cfg content st) = timers st @ [60000] \<and>
      logs (executeSend b cfg content st) = logs st @
        [\<lparr>log_message = ''Sending report to WeCom...'', log_type = info\<rparr>,
         \<lparr>log_message = ''Successfully pushed to Enterprise WeChat.'', log_type = success\<rparr>,
         \<lparr>log_message = ''Workflow complete. Resetting for next cycle.'', log_type = success\<rparr>]"
    by (simp add: executeSend_unfold executeSend_finish_Inr executeSend_begin_fields)
  have c7: "\<forall>e. ?r = Inl e \<longrightarrow>
      status (executeSend b cfg content st) = REVIEWING \<and>
      timers (executeSend b cfg content st) = timers st \<and>
      logs (executeSend b cfg content st) = logs st @
        [\<lparr>log_message = ''Sending report to WeCom...'', log_type = info\<rparr>,
         \<lparr>log_message = ''Send Failed: '' @ message e @ ''. Please click 'Approve & Send' to retry.'',
          log_type = error\<rparr>]"
    by (simp add: executeSend_unfold executeSend_finish_Inl executeSend_begin_fields)
  have c8: "lastReport (executeSend b cfg content st) = lastReport st"
    by (cases ?r) (simp_all add: executeSend_unfold executeSend_finish_Inl executeSend_finish_Inr
        executeSend_begin_fields)
  have c9: "\<not> requireConfirmation cfg \<longrightarrow>
      startGeneration_resume b cfg (Inr r) st =
        executeSend b cfg r
          (st\<lparr>lastReport := r,
              logs := logs st @ [\<lparr>log_message = ''Report generated. Preparing for review.'',
                                     log_type = success\<rparr>]\<rparr>)"
    by (simp add: startGeneration_resume.simps app_ops Let_def)
  have c10: "requireConfirmation cfg \<longrightarrow>
      status (startGeneration_resume b cfg (Inr r) st) = REVIEWING \<and>
      lastReport (startGeneration_resume b cfg (Inr r) st) = r \<and>
      io (startGeneration_resume b cfg (Inr r) st) = io st"
    by (simp add: startGeneration_resume.simps app_ops Let_def)
  show ?thesis using c1 c2 c3 c4 c5 c6 c7 c8 c9 c10 by blast
qed

theorem approve_has_no_status_guard_witness:
  "status (startGeneration_begin cfg_auto init) = GENERATING \<and>
   click sink_ok cfg_auto ApproveSend (startGeneration_begin cfg_auto init) = None \<and>
   status (startGeneration_resume sink_ok cfg_auto (Inr ''r'') (startGeneration_begin cfg_auto init)) =
     COMPLETED \<and>
   io (startGeneration_resume sink_ok cfg_auto (Inr ''r'') (startGeneration_begin cfg_auto init)) =
     [Generate ''key'', Fetch (mkRequest (proxyUrl @ ''hook'') ''r'')] \<and>
   timers (startGeneration_resume sink_ok cfg_auto (Inr ''r'') (startGeneration_begin cfg_auto init)) =
     [60000] \<and>
   status (startGeneration_resume sink_ok cfg_key (Inr ''r'') (startGeneration_begin cfg_key init)) =
     REVIEWING \<and>
   io (startGeneration_resume sink_ok cfg_key (Inr ''r'') (startGeneration_begin cfg_key init)) =
     [Generate ''key''] \<and>
   map_option (\<lambda>x. (status (snd x), io (snd x)))
     (click sink_ok cfg_key ApproveSend
        (startGeneration_resume sink_ok cfg_key (Inr ''r'') (startGeneration_begin cfg_key init))) =
     Some (COMPLETED, [Generate ''key'', Fetch (mkRequest (proxyUrl @ ''hook'') ''r'')])"
proof -
  let ?g = "startGeneration_begin cfg_auto init"
  let ?g1 = "?g\<lparr>lastReport := ''r'',
      logs := logs ?g @ [\<lparr>log_message = ''Report generated. Preparing for review.'',
                          log_type = success\<rparr>]\<rparr>"
  let ?k = "startGeneration_begin cfg_key init"
  let ?k1 = "startGeneration_resume sink_ok cfg_key (Inr ''r'') ?k"
  have c: "apiKey cfg_auto = ''key''" "webhookUrl cfg_auto = ''hook''" "\<not> requireConfirmation cfg_auto"
    "apiKey cfg_key = ''key''" "webhookUrl cfg_key = ''hook''" "requireConfirmation cfg_key"
    by (simp_all add: cfg_auto_def cfg_key_def)
  have i: "status init = WAITING" "io init = []" "timers init = []"
    by (simp_all add: init_def)
  have g: "status ?g = GENERATING" "io ?g = [Generate ''key'']" "timers ?g = []"
    by (simp_all add: startGeneration_begin_key c i)
  have k: "status ?k = GENERATING" "io ?k = [Generate ''key'']"
    by (simp_all add: startGeneration_begin_key c i)
  have n: "click sink_ok cfg_auto ApproveSend ?g = None"
    using approve_has_no_status_guard [of ?g sink_ok cfg_auto "''r''" "''r''"] g(1) by simp
  have e: "startGeneration_resume sink_ok cfg_auto (Inr ''r'') ?g = executeSend sink_ok cfg_auto ''r'' ?g1"
    using approve_has_no_status_guard [of ?g sink_ok cfg_auto "''r''" "''r''"] c(3) by blast
  have s1: "fst (sendToWeCom sink_ok (webhookUrl cfg_auto) ''r'' (io ?g1)) = Inr ()"
    by (simp add: c sendToWeCom_ok_r)
  have "status (executeSend sink_ok cfg_auto ''r'' ?g1) = COMPLETED \<and>
      timers (executeSend sink_ok cfg_auto ''r'' ?g1) = timers ?g1 @ [60000]"
    using approve_has_no_status_guard [of ?g1 sink_ok cfg_auto "''r''" "''r''"] s1 by blast
  then have a1: "status (executeSend sink_ok cfg_auto ''r'' ?g1) = COMPLETED"
    "timers (executeSend sink_ok cfg_auto ''r'' ?g1) = [60000]"
    by (simp_all add: g)
  have "io (executeSend sink_ok cfg_auto ''r'' ?g1) =
     snd (sendToWeCom sink_ok (webhookUrl cfg_auto) ''r'' (io ?g1)) @
     (case fst (sendToWeCom sink_ok (webhookUrl cfg_auto) ''r'' (io ?g1)) of
        Inl e \<Rightarrow> [Alert (''Failed to send report: '' @ message e @ [newline, newline] @
                         ''Please check your network or webhook URL and try again.'')]
      | Inr u \<Rightarrow> [])"
    using approve_has_no_status_guard [of ?g1 sink_ok cfg_auto "''r''" "''r''"] by blast
  then have a2: "io (executeSend sink_ok cfg_auto ''r'' ?g1) =
      [Generate ''key'', Fetch (mkRequest (proxyUrl @ ''hook'') ''r'')]"
    by (simp add: c sendToWeCom_ok_r g)
  have "status ?k1 = REVIEWING \<and> lastReport ?k1 = ''r'' \<and> io ?k1 = io ?k"
    using approve_has_no_status_guard [of ?k sink_ok cfg_key "''r''" "''r''"] c(6) by blast
  then have k1: "status ?k1 = REVIEWING" "lastReport ?k1 = ''r''" "io ?k1 = [Generate ''key'']"
    by (simp_all add: k)
  have cl: "click sink_ok cfg_key ApproveSend ?k1 = Some (cfg_key, executeSend sink_ok cfg_key ''r'' ?k1)"
    using approve_has_no_status_guard [of ?k1 sink_ok cfg_key "''r''" "''r''"] k1 by simp
  have s2: "fst (sendToWeCom sink_ok (webhookUrl cfg_key) ''r'' (io ?k1)) = Inr ()"
    by (simp add: c sendToWeCom_ok_r)
  have b1: "status (executeSend sink_ok cfg_key ''r'' ?k1) = COMPLETED"
    using approve_has_no_status_guard [of ?k1 sink_ok cfg_key "''r''" "''r''"] s2 by blast
  have "io (executeSend sink_ok cfg_key ''r'' ?k1) =
     snd (sendToWeCom sink_ok (webhookUrl cfg_key) ''r'' (io ?k1)) @
     (case fst (sendToWeCom sink_ok (webhookUrl cfg_key) ''r'' (io ?k1)) of
        Inl e \<Rightarrow> [Alert (''Failed to send report: '' @ message e @ [newline, newline] @
                         ''Please check your network or webhook URL and try again.'')]
      | Inr u \<Rightarrow> [])"
    using approve_has_no_status_guard [of ?k1 sink_ok cfg_key "''r''" "''r''"] by blast
  then have b2: "io (executeSend sink_ok cfg_key ''r'' ?k1) =
      [Generate ''key'', Fetch (mkRequest (proxyUrl @ ''hook'') ''r'')]"
    by (simp add: c sendToWeCom_ok_r k1)
  show ?thesis
    unfolding e cl by (simp add: g n a1 a2 k1 b1 b2)
qed

text \<open>
  C6 as stated fails: with no confirmation required, a generation started from the
  initial state runs the operation on the stored report while the status is
  \<open>GENERATING\<close>; the report is sent, three log entries are appended and the status
  ends in \<open>COMPLETED\<close>.
\<close>

theorem auto_send_runs_outside_review:
  "status ((startGeneration_begin cfg_auto init)
      \<lparr>lastReport := ''r'',
        logs := logs (startGeneration_begin cfg_auto init) @
          [\<lparr>log_message = ''Report generated. Preparing for review.'', log_type = success\<rparr>]\<rparr>) =
     GENERATING \<and>
   startGeneration_resume sink_ok cfg_auto (Inr ''r'') (startGeneration_begin cfg_auto init) =
     approve sink_ok cfg_auto
       ((startGeneration_begin cfg_auto init)
          \<lparr>lastReport := ''r'',
            logs := logs (startGeneration_begin cfg_auto init) @
              [\<lparr>log_message = ''Report generated. Preparing for review.'', log_type = success\<rparr>]\<rparr>) \<and>
   status (approve sink_ok cfg_auto
       ((startGeneration_begin cfg_auto init)
          \<lparr>lastReport := ''r'',
            logs := logs (startGeneration_begin cfg_auto init) @
              [\<lparr>log_message = ''Report generated. Preparing for review.'', log_type = success\<rparr>]\<rparr>)) =
     COMPLETED \<and>
   logs (approve sink_ok cfg_auto
       ((startGeneration_begin cfg_auto init)
          \<lparr>lastReport := ''r'',
            logs := logs (startGeneration_begin cfg_auto init) @
              [\<lparr>log_message = ''Report generated. Preparing for review.'', log_type = success\<rparr>]\<rparr>)) =
     [\<lparr>log_message = ''Starting workflow: Scanning data sources...'', log_type = info\<rparr>,
      \<lparr>log_message = ''Analysing clinical trials with Gemini 2.5...'', log_type = info\<rparr>,
      \<lparr>log_message = ''Report generated. Preparing for review.'', log_type = success\<rparr>,
      \<lparr>log_message = ''Sending report to WeCom...'', log_type = info\<rparr>,
      \<lparr>log_message = ''Successfully pushed to Enterprise WeChat.'', log_type = success\<rparr>,
      \<lparr>log_message = ''Workflow complete. Resetting for next cycle.'', log_type = success\<rparr>] \<and>
   io (approve sink_ok cfg_auto
       ((startGeneration_begin cfg_auto init)
          \<lparr>lastReport := ''r'',
            logs := logs (startGeneration_begin cfg_auto init) @
              [\<lparr>log_message = ''Report generated. Preparing for review.'', log_type = success\<rparr>]\<rparr>)) =
     [Generate ''key'', Fetch (mkRequest (proxyUrl @ ''hook'') ''r'')]"
proof -
  let ?g = "startGeneration_begin cfg_auto init"
  let ?g1 = "?g\<lparr>lastReport := ''r'',
      logs := logs ?g @ [\<lparr>log_message = ''Report generated. Preparing for review.'',
                          log_type = success\<rparr>]\<rparr>"
  have c: "apiKey cfg_auto = ''key''" "webhookUrl cfg_auto = ''hook''" "\<not> requireConfirmation cfg_auto"
    by (simp_all add: cfg_auto_def)
  have i: "status init = WAITING" "io init = []" "timers init = []" "logs init = []"
    by (simp_all add: init_def)
  have g: "status ?g = GENERATING" "io ?g = [Generate ''key'']"
    "logs ?g = [\<lparr>log_message = ''Starting workflow: Scanning data sources...'', log_type = info\<rparr>,
                \<lparr>log_message = ''Analysing clinical trials with Gemini 2.5...'', log_type = info\<rparr>]"
    by (simp_all add: startGeneration_begin_key c i)
  have e: "startGeneration_resume sink_ok cfg_auto (Inr ''r'') ?g = approve sink_ok cfg_auto ?g1"
    using c(3) by (simp add: startGeneration_resume.simps app_ops Let_def approve_def)
  have a: "approve sink_ok cfg_auto ?g1 =
      executeSend_finish (Inr ())
        ((executeSend_begin ?g1)\<lparr>io := io ?g1 @ [Fetch (mkRequest (proxyUrl @ ''hook'') ''r'')]\<rparr>)"
    by (simp add: approve_def executeSend_unfold c sendToWeCom_ok_r)
  have "status (approve sink_ok cfg_auto ?g1) = COMPLETED"
    unfolding a by (simp add: executeSend_finish_Inr)
  moreover have "logs (approve sink_ok cfg_auto ?g1) = logs ?g1 @
     [\<lparr>log_message = ''Sending report to WeCom...'', log_type = info\<rparr>,
      \<lparr>log_message = ''Successfully pushed to Enterprise WeChat.'', log_type = success\<rparr>,
      \<lparr>log_message = ''Workflow complete. Resetting for next cycle.'', log_type = success\<rparr>]"
    unfolding a by (simp add: executeSend_finish_Inr executeSend_begin_fields)
  moreover have "io (approve sink_ok cfg_auto ?g1) = io ?g1 @ [Fetch (mkRequest (proxyUrl @ ''hook'') ''r'')]"
    unfolding a by (simp add: executeSend_finish_Inr)
  ultimately show ?thesis using e g by simp
qed

subsection \<open>C4: the scheduler fires once a day\<close>

lemma tick_fired: "fst (tick cfg now st) = shouldTrigger cfg now st"
  by (simp add: tick_def Let_def shouldTrigger_def)

lemma tick_lastRunDate:
  "lastRunDate (snd (tick cfg now st)) = (if shouldTrigger cfg now st then dateKey now else lastRunDate st)"
  by (simp add: tick_def Let_def shouldTrigger_def startGeneration_begin_lastRunDate app_ops)

lemma tick_idle:
  "\<not> shouldTrigger cfg now st \<Longrightarrow> snd (tick cfg now st) = st\<lparr>countDown := nextRunText now\<rparr>"
  by (auto simp: tick_def Let_def shouldTrigger_def)

lemma runTicks_same_day:
  "\<forall>(c, t, other)\<in>set evs. dateKey t = d \<and> (\<forall>s. lastRunDate (other s) = lastRunDate s) \<Longrightarrow>
   lastRunDate st = d \<Longrightarrow>
   fst (runTicks evs st) = 0 \<and> lastRunDate (snd (runTicks evs st)) = d"
proof (induction evs arbitrary: st)
  case Nil
  then show ?case by simp
next
  case (Cons ev evs)
  obtain c t other where ev: "ev = (c, t, other)" by (cases ev)
  from Cons.prems ev have t: "dateKey t = d" and o: "\<And>s. lastRunDate (other s) = lastRunDate s"
    and rest: "\<forall>(c, t, other)\<in>set evs. dateKey t = d \<and> (\<forall>s. lastRunDate (other s) = lastRunDate s)"
    by auto
  have nf: "\<not> shouldTrigger c t st" using t Cons.prems(2) by (simp add: shouldTrigger_def)
  obtain fired st1 where tk: "tick c t st = (fired, st1)" by (cases "tick c t st")
  have f: "\<not> fired" using nf tick_fired [of c t st] tk by simp
  have "lastRunDate st1 = d" using nf Cons.prems(2) tick_lastRunDate [of c t st] tk by simp
  then have "lastRunDate (other st1) = d" by (simp add: o)
  from Cons.IH [OF rest this] show ?case
    using f by (simp add: ev tk split: prod.splits)
qed

lemma tick_fires:
  "shouldTrigger cfg now st \<Longrightarrow>
   snd (tick cfg now st) =
     startGeneration_begin cfg
       (st\<lparr>countDown := nextRunText now,
           logs := logs st @ [\<lparr>log_message = ''Auto-Scheduler triggered for '' @ dateKey now,
                                  log_type = warning\<rparr>],
           lastRunDate := dateKey now\<rparr>)"
  by (simp add: tick_def Let_def shouldTrigger_def app_ops)

text \<open>
  C4. A tick starts the generation exactly when the automatic mode is on, the time is
  Friday 16:30, the stored day differs from today's and the status is \<open>WAITING\<close>. A tick
  that fires stores today's day, logs the trigger and runs \<^verbatim>\<open>startGeneration()\<close> on
  that state: with a key the status becomes \<open>GENERATING\<close> and the generation service
  is called once, without a key the status becomes \<open>ERROR\<close> and the 5 s timer is set. A
  tick that does not fire changes the countdown text only. Once the stored day is
  today's, no tick of that day fires, however many there are and whatever the other
  handlers, which never write the stored day, do between them.
\<close>

theorem auto_fire_rule:
  "fst (tick cfg now st) =
     (autoMode cfg \<and> (day now = 5 \<and> hour now = 16 \<and> minute now = 30) \<and>
      lastRunDate st \<noteq> dateKey now \<and> status st = WAITING) \<and>
   (fst (tick cfg now st) \<longrightarrow>
      lastRunDate (snd (tick cfg now st)) = dateKey now \<and>
      snd (tick cfg now st) =
        startGeneration_begin cfg
          (st\<lparr>countDown := nextRunText now,
              logs := logs st @ [\<lparr>log_message = ''Auto-Scheduler triggered for '' @ dateKey now,
                                     log_type = warning\<rparr>],
              lastRunDate := dateKey now\<rparr>)) \<and>
   (fst (tick cfg now st) \<and> apiKey cfg \<noteq> [] \<longrightarrow>
      status (snd (tick cfg now st)) = GENERATING \<and>
      io (snd (tick cfg now st)) = io st @ [Generate (apiKey cfg)] \<and>
      timers (snd (tick cfg now st)) = timers st \<and>
      logs (snd (tick cfg now st)) = logs st @
        [\<lparr>log_message = ''Auto-Scheduler triggered for '' @ dateKey now, log_type = warning\<rparr>,
         \<lparr>log_message = ''Starting workflow: Scanning data sources...'', log_type = info\<rparr>,
         \<lparr>log_message = ''Analysing clinical trials with Gemini 2.5...'', log_type = info\<rparr>]) \<and>
   (fst (tick cfg now st) \<and> apiKey cfg = [] \<longrightarrow>
      status (snd (tick cfg now st)) = ERROR \<and>
      io (snd (tick cfg now st)) = io st \<and>
      timers (snd (tick cfg now st)) = timers st @ [5000] \<and>
      logs (snd (tick cfg now st)) = logs st @
        [\<lparr>log_message = ''Auto-Scheduler triggered for '' @ dateKey now, log_type = warning\<rparr>,
         \<lparr>log_message = ''API Key missing. Cannot execute workflow.'', log_type = error\<rparr>]) \<and>
   (\<not> fst (tick cfg now st) \<longrightarrow> snd (tick cfg now st) = st\<lparr>countDown := nextRunText now\<rparr>) \<and>
   ((\<forall>(c, t, other)\<in>set evs. dateKey t = lastRunDate st \<and> (\<forall>s. lastRunDate (other s) = lastRunDate s)) \<longrightarrow>
      fst (runTicks evs st) = 0 \<and> lastRunDate (snd (runTicks evs st)) = lastRunDate st)"
proof -
  let ?st1 = "st\<lparr>countDown := nextRunText now,
           logs := logs st @ [\<lparr>log_message = ''Auto-Scheduler triggered for '' @ dateKey now,
                                  log_type = warning\<rparr>],
           lastRunDate := dateKey now\<rparr>"
  have c1: "fst (tick cfg now st) =
     (autoMode cfg \<and> (day now = 5 \<and> hour now = 16 \<and> minute now = 30) \<and>
      lastRunDate st \<noteq> dateKey now \<and> status st = WAITING)"
    by (simp add: tick_fired shouldTrigger_def)
  have c2: "lastRunDate (snd (tick cfg now st)) = dateKey now \<and>
      snd (tick cfg now st) = startGeneration_begin cfg ?st1" if "fst (tick cfg now st)"
    using that tick_lastRunDate [of cfg now st] tick_fires [of cfg now st]
    by (simp add: tick_fired)
  have w: "status ?st1 \<noteq> SEARCHING" "status ?st1 \<noteq> GENERATING" if "fst (tick cfg now st)"
    using that by (simp_all add: c1)
  have c3: "status (snd (tick cfg now st)) = GENERATING \<and>
      io (snd (tick cfg now st)) = io st @ [Generate (apiKey cfg)] \<and>
      timers (snd (tick cfg now st)) = timers st \<and>
      logs (snd (tick cfg now st)) = logs st @
        [\<lparr>log_message = ''Auto-Scheduler triggered for '' @ dateKey now, log_type = warning\<rparr>,
         \<lparr>log_message = ''Starting workflow: Scanning data sources...'', log_type = info\<rparr>,
         \<lparr>log_message = ''Analysing clinical trials with Gemini 2.5...'', log_type = info\<rparr>]"
    if "fst (tick cfg now st) \<and> apiKey cfg \<noteq> []"
    using that c2 startGeneration_begin_key [of ?st1 cfg] w by simp
  have c4: "status (snd (tick cfg now st)) = ERROR \<and>
      io (snd (tick cfg now st)) = io st \<and>
      timers (snd (tick cfg now st)) = timers st @ [5000] \<and>
      logs (snd (tick cfg now st)) = logs st @
        [\<lparr>log_message = ''Auto-Scheduler triggered for '' @ dateKey now, log_type = warning\<rparr>,
         \<lparr>log_message = ''API Key missing. Cannot execute workflow.'', log_type = error\<rparr>]"
    if "fst (tick cfg now st) \<and> apiKey cfg = []"
    using that c2 startGeneration_begin_nokey [of ?st1 cfg] w by simp
  have c5: "snd (tick cfg now st) = st\<lparr>countDown := nextRunText now\<rparr>" if "\<not> fst (tick cfg now st)"
    using that by (simp add: tick_fired tick_idle)
  have c6: "fst (runTicks evs st) = 0 \<and> lastRunDate (snd (runTicks evs st)) = lastRunDate st"
    if a: "\<forall>(c, t, other)\<in>set evs. dateKey t = lastRunDate st \<and> (\<forall>s. lastRunDate (other s) = lastRunDate s)"
    using runTicks_same_day [OF a refl] by simp
  show ?thesis using c1 c2 c3 c4 c5 c6 by blast
qed

theorem auto_fire_rule_witness:
  "fst (tick cfg_nokey friday init) = True \<and>
   lastRunDate (snd (tick cfg_nokey friday init)) = dateKey friday \<and>
   status (snd (tick cfg_nokey friday init)) = ERROR \<and>
   timers (snd (tick cfg_nokey friday init)) = [5000] \<and>
   fst (tick cfg_nokey friday (fireTimer 0 (snd (tick cfg_nokey friday init)))) = False \<and>
   status (fireTimer 0 (snd (tick cfg_nokey friday init))) = WAITING \<and>
   fst (runTicks [(cfg_nokey, friday, fireTimer 0), (cfg_nokey, friday, id), (cfg_key, friday, id)]
          (snd (tick cfg_nokey friday init))) = 0 \<and>
   fst (tick cfg_key friday init) = True \<and>
   status (snd (tick cfg_key friday init)) = GENERATING \<and>
   io (snd (tick cfg_key friday init)) = [Generate ''key''] \<and>
   logs (snd (tick cfg_key friday init)) =
     [\<lparr>log_message = ''Auto-Scheduler triggered for 06/11/2026'', log_type = warning\<rparr>,
      \<lparr>log_message = ''Starting workflow: Scanning data sources...'', log_type = info\<rparr>,
      \<lparr>log_message = ''Analysing clinical trials with Gemini 2.5...'', log_type = info\<rparr>] \<and>
   lastRunDate (snd (tick cfg_key friday init)) = ''06/11/2026'' \<and>
   fst (tick cfg_key friday (snd (tick cfg_key friday init))) = False \<and>
   fst (tick cfg_key (friday\<lparr>minute := 31\<rparr>) init) = False \<and>
   snd (tick cfg_key (friday\<lparr>minute := 31\<rparr>) init) = init\<lparr>countDown := ''Next run: Next Friday''\<rparr>"
proof -
  let ?st1 = "snd (tick cfg_nokey friday init)"
  let ?evs = "[(cfg_nokey, friday, fireTimer 0), (cfg_nokey, friday, id), (cfg_key, friday, id)]"
  have c: "autoMode cfg_nokey" "apiKey cfg_nokey = []" "autoMode cfg_key" "apiKey cfg_key = ''key''"
    by (simp_all add: cfg_nokey_def cfg_key_def)
  have d: "day friday = 5" "hour friday = 16" "minute friday = 30" "dateKey friday = ''06/11/2026''"
    by (simp_all add: friday_def)
  have i: "status init = WAITING" "lastRunDate init = []" "logs init = []" "io init = []"
    "timers init = []"
    by (simp_all add: init_def)
  have f1: "fst (tick cfg_nokey friday init) = True"
    using auto_fire_rule [of cfg_nokey friday init "[]"] by (simp add: c d i)
  have "status ?st1 = ERROR \<and> timers ?st1 = timers init @ [5000] \<and>
      lastRunDate ?st1 = dateKey friday"
    using auto_fire_rule [of cfg_nokey friday init "[]"] f1 c(2) by blast
  then have s: "status ?st1 = ERROR" "timers ?st1 = [5000]" "lastRunDate ?st1 = dateKey friday"
    by (simp_all add: i)
  have h: "\<forall>(c, t, other)\<in>set ?evs.
      dateKey t = lastRunDate ?st1 \<and> (\<forall>s. lastRunDate (other s) = lastRunDate s)"
    by (simp add: s fireTimer_fields)
  from auto_fire_rule [of cfg_nokey friday ?st1 ?evs] h
  have r: "fst (runTicks ?evs ?st1) = 0" by blast
  have f2: "fst (tick cfg_nokey friday (fireTimer 0 ?st1)) = False"
    using auto_fire_rule [of cfg_nokey friday "fireTimer 0 ?st1" "[]"]
    by (simp add: fireTimer_fields s)
  have w: "status (fireTimer 0 ?st1) = WAITING" by (simp add: fireTimer_fields s)
  have g1: "fst (tick cfg_key friday init) = True"
    using auto_fire_rule [of cfg_key friday init "[]"] by (simp add: c d i)
  have "apiKey cfg_key \<noteq> []" by (simp add: c)
  then have "status (snd (tick cfg_key friday init)) = GENERATING \<and>
      io (snd (tick cfg_key friday init)) = io init @ [Generate (apiKey cfg_key)] \<and>
      logs (snd (tick cfg_key friday init)) = logs init @
        [\<lparr>log_message = ''Auto-Scheduler triggered for '' @ dateKey friday, log_type = warning\<rparr>,
         \<lparr>log_message = ''Starting workflow: Scanning data sources...'', log_type = info\<rparr>,
         \<lparr>log_message = ''Analysing clinical trials with Gemini 2.5...'', log_type = info\<rparr>] \<and>
      lastRunDate (snd (tick cfg_key friday init)) = dateKey friday"
    using auto_fire_rule [of cfg_key friday init "[]"] g1 by blast
  then have g: "status (snd (tick cfg_key friday init)) = GENERATING"
    "io (snd (tick cfg_key friday init)) = [Generate ''key'']"
    "logs (snd (tick cfg_key friday init)) =
     [\<lparr>log_message = ''Auto-Scheduler triggered for 06/11/2026'', log_type = warning\<rparr>,
      \<lparr>log_message = ''Starting workflow: Scanning data sources...'', log_type = info\<rparr>,
      \<lparr>log_message = ''Analysing clinical trials with Gemini 2.5...'', log_type = info\<rparr>]"
    "lastRunDate (snd (tick cfg_key friday init)) = ''06/11/2026''"
    by (simp_all add: c d i)
  have g2: "fst (tick cfg_key friday (snd (tick cfg_key friday init))) = False"
    using auto_fire_rule [of cfg_key friday "snd (tick cfg_key friday init)" "[]"]
    by (simp add: g d)
  have g3: "fst (tick cfg_key (friday\<lparr>minute := 31\<rparr>) init) = False"
    using auto_fire_rule [of cfg_key "friday\<lparr>minute := 31\<rparr>" init "[]"] by simp
  have n: "nextRunText (friday\<lparr>minute := 31\<rparr>) = ''Next run: Next Friday''"
    by (simp add: nextRunText_def friday_def)
  have "snd (tick cfg_key (friday\<lparr>minute := 31\<rparr>) init) =
      init\<lparr>countDown := nextRunText (friday\<lparr>minute := 31\<rparr>)\<rparr>"
    using auto_fire_rule [of cfg_key "friday\<lparr>minute := 31\<rparr>" init "[]"] g3 by blast
  then have g4: "snd (tick cfg_key (friday\<lparr>minute := 31\<rparr>) init) =
      init\<lparr>countDown := ''Next run: Next Friday''\<rparr>"
    by (simp add: n)
  show ?thesis using r f1 f2 w s g1 g g2 g3 g4 by simp
qed

end
